theory Spec2Isabelle
  imports Main "HOL-Library.Word" "HOL-Library.Multiset"
begin

unbundle bit_operations_syntax

section \<open>JavaScript strings\<close>

text \<open>
  A JavaScript string is a sequence of UTF-16 code units. The route of
  \<^verbatim>\<open>server.js\<close> reads a multipart form, whose text fields (\<^verbatim>\<open>name\<close>, \<^verbatim>\<open>contact\<close>,
  \<^verbatim>\<open>email\<close>, \<^verbatim>\<open>links\<close>) are such strings, or \<^verbatim>\<open>undefined\<close> when the field is missing
  from the form; a missing field is \<open>None\<close>.
\<close>

type_synonym code_unit = "16 word"
type_synonym jsstring = "code_unit list"

definition js :: "string \<Rightarrow> jsstring" where
  "js s = map (\<lambda>c. word_of_nat (of_char c)) s"

text \<open>
  \<^verbatim>\<open>!x\<close>, \<^verbatim>\<open>if (x)\<close> and \<^verbatim>\<open>x || d\<close> on a value that is a string or \<^verbatim>\<open>undefined\<close> (or
  SQL \<^verbatim>\<open>NULL\<close>, read as \<^verbatim>\<open>null\<close>): only the empty string and the missing value
  are falsy.
\<close>

definition truthy :: "jsstring option \<Rightarrow> bool" where
  "truthy v = (case v of None \<Rightarrow> False | Some s \<Rightarrow> s \<noteq> [])"

definition or_else :: "jsstring option \<Rightarrow> jsstring \<Rightarrow> jsstring" where
  "or_else v d = (case v of None \<Rightarrow> d | Some s \<Rightarrow> if s = [] then d else s)"

text \<open>
  \<^verbatim>\<open>String.prototype.trim\<close> strips the code units of WhiteSpace and LineTerminator
  from both ends.
\<close>

definition is_white_space :: "code_unit \<Rightarrow> bool" where
  "is_white_space c \<longleftrightarrow>
     c = 0x09 \<or> c = 0x0A \<or> c = 0x0B \<or> c = 0x0C \<or> c = 0x0D \<or> c = 0x20 \<or> c = 0xA0 \<or>
     c = 0x1680 \<or> (0x2000 \<le> c \<and> c \<le> 0x200A) \<or> c = 0x2028 \<or> c = 0x2029 \<or>
     c = 0x202F \<or> c = 0x205F \<or> c = 0x3000 \<or> c = 0xFEFF"

definition trim :: "jsstring \<Rightarrow> jsstring" where
  "trim s = rev (dropWhile is_white_space (rev (dropWhile is_white_space s)))"

text \<open>
  \<^verbatim>\<open>s.split('\n')\<close>: the pieces between the line feeds, in order; a string with
  \<open>n\<close> line feeds has \<open>n + 1\<close> pieces, and the empty string has the one piece
  \<^verbatim>\<open>''\<close>.
\<close>

fun split_lf :: "jsstring \<Rightarrow> jsstring list" where
  "split_lf [] = [[]]"
| "split_lf (c # cs) =
     (if c = 0x0A then [] # split_lf cs
      else (case split_lf cs of [] \<Rightarrow> [[c]] | l # ls \<Rightarrow> (c # l) # ls))"

text \<open>Line 89: \<^verbatim>\<open>(links || '').split('\n').map(s => s.trim()).filter(Boolean)\<close>.\<close>

definition linksArray :: "jsstring option \<Rightarrow> jsstring list" where
  "linksArray links = filter (\<lambda>s. s \<noteq> []) (map trim (split_lf (or_else links [])))"

section \<open>JSON text\<close>

subsection \<open>\<^verbatim>\<open>JSON.stringify\<close> of an array of strings\<close>

text \<open>
  \<^verbatim>\<open>JSON.stringify\<close> is only ever applied to arrays of strings (line 104). Each
  string is quoted by QuoteJSONString (ECMAScript 2019 and later): the string is
  read by code points, a surrogate pair is copied, and a control character, a
  quote, a backslash or an unpaired surrogate is escaped.
\<close>

definition is_leading_surrogate :: "code_unit \<Rightarrow> bool" where
  "is_leading_surrogate c \<longleftrightarrow> 0xD800 \<le> c \<and> c \<le> 0xDBFF"

definition is_trailing_surrogate :: "code_unit \<Rightarrow> bool" where
  "is_trailing_surrogate c \<longleftrightarrow> 0xDC00 \<le> c \<and> c \<le> 0xDFFF"

definition is_surrogate :: "code_unit \<Rightarrow> bool" where
  "is_surrogate c \<longleftrightarrow> 0xD800 \<le> c \<and> c \<le> 0xDFFF"

definition hex_digit :: "code_unit \<Rightarrow> code_unit" where
  "hex_digit d = (if d < 10 then 0x30 + d else 0x57 + d)"

definition UnicodeEscape :: "code_unit \<Rightarrow> jsstring" where
  "UnicodeEscape c =
     [0x5C, 0x75, hex_digit (drop_bit 12 c), hex_digit (take_bit 4 (drop_bit 8 c)),
      hex_digit (take_bit 4 (drop_bit 4 c)), hex_digit (take_bit 4 c)]"

definition quote_code_unit :: "code_unit \<Rightarrow> jsstring" where
  "quote_code_unit c =
     (if c = 0x08 then [0x5C, 0x62]
      else if c = 0x09 then [0x5C, 0x74]
      else if c = 0x0A then [0x5C, 0x6E]
      else if c = 0x0C then [0x5C, 0x66]
      else if c = 0x0D then [0x5C, 0x72]
      else if c = 0x22 then [0x5C, 0x22]
      else if c = 0x5C then [0x5C, 0x5C]
      else if c < 0x20 \<or> is_surrogate c then UnicodeEscape c
      else [c])"

fun quote_code_points :: "jsstring \<Rightarrow> jsstring" where
  "quote_code_points [] = []"
| "quote_code_points [c] = quote_code_unit c"
| "quote_code_points (c # d # cs) =
     (if is_leading_surrogate c \<and> is_trailing_surrogate d then c # d # quote_code_points cs
      else quote_code_unit c @ quote_code_points (d # cs))"

definition QuoteJSONString :: "jsstring \<Rightarrow> jsstring" where
  "QuoteJSONString s = 0x22 # quote_code_points s @ [0x22]"

fun join_comma :: "jsstring list \<Rightarrow> jsstring" where
  "join_comma [] = []"
| "join_comma [x] = x"
| "join_comma (x # y # ys) = x @ 0x2C # join_comma (y # ys)"

definition JSON_stringify :: "jsstring list \<Rightarrow> jsstring" where
  "JSON_stringify xs = 0x5B # join_comma (map QuoteJSONString xs) @ [0x5D]"

subsection \<open>\<^verbatim>\<open>JSON.parse\<close>\<close>

text \<open>
  The value of a JSON text. A number keeps its lexeme and an object keeps its
  members in the order of the text: the program never looks inside either.
\<close>

datatype json =
    JNull
  | JBool bool
  | JNumber jsstring
  | JString jsstring
  | JArray "json list"
  | JObject "(jsstring \<times> json) list"

datatype token =
    LBracket | RBracket | LBrace | RBrace | Colon | Comma
  | TString jsstring | TNumber jsstring | TTrue | TFalse | TNull

definition hex_value :: "code_unit \<Rightarrow> code_unit option" where
  "hex_value c =
     (if 0x30 \<le> c \<and> c \<le> 0x39 then Some (c - 0x30)
      else if 0x61 \<le> c \<and> c \<le> 0x66 then Some (c - 0x57)
      else if 0x41 \<le> c \<and> c \<le> 0x46 then Some (c - 0x37)
      else None)"

definition hex4 :: "code_unit \<Rightarrow> code_unit \<Rightarrow> code_unit \<Rightarrow> code_unit \<Rightarrow> code_unit option" where
  "hex4 a b c d =
     (case (hex_value a, hex_value b, hex_value c, hex_value d) of
        (Some x, Some y, Some z, Some w) \<Rightarrow>
          Some (push_bit 12 x OR push_bit 8 y OR push_bit 4 z OR w)
      | _ \<Rightarrow> None)"

definition unescape :: "code_unit \<Rightarrow> code_unit option" where
  "unescape e =
     (if e = 0x22 then Some 0x22
      else if e = 0x2F then Some 0x2F
      else if e = 0x5C then Some 0x5C
      else if e = 0x62 then Some 0x08
      else if e = 0x66 then Some 0x0C
      else if e = 0x6E then Some 0x0A
      else if e = 0x72 then Some 0x0D
      else if e = 0x74 then Some 0x09
      else None)"

definition cons_string :: "code_unit \<Rightarrow> (jsstring \<times> jsstring) option \<Rightarrow> (jsstring \<times> jsstring) option" where
  "cons_string c r = (case r of None \<Rightarrow> None | Some (s, rest) \<Rightarrow> Some (c # s, rest))"

text \<open>
  The characters of a JSON string after its opening quote: the string they
  denote and the text after the closing quote, or \<open>None\<close> when the text is no
  JSON string (a raw control character, a bad escape, or no closing quote).
\<close>

fun lex_string :: "jsstring \<Rightarrow> (jsstring \<times> jsstring) option" where
  "lex_string [] = None"
| "lex_string (c # cs) =
     (if c = 0x22 then Some ([], cs)
      else if c = 0x5C then
        (case cs of
           [] \<Rightarrow> None
         | e # es \<Rightarrow>
             if e = 0x75 then
               (case es of
                  h1 # h2 # h3 # h4 # r \<Rightarrow>
                    (case hex4 h1 h2 h3 h4 of
                       None \<Rightarrow> None
                     | Some u \<Rightarrow> cons_string u (lex_string r))
                | _ \<Rightarrow> None)
             else
               (case unescape e of
                  None \<Rightarrow> None
                | Some u \<Rightarrow> cons_string u (lex_string es)))
      else if c < 0x20 then None
      else cons_string c (lex_string cs))"

definition is_digit :: "code_unit \<Rightarrow> bool" where
  "is_digit c \<longleftrightarrow> 0x30 \<le> c \<and> c \<le> 0x39"

text \<open>
  A JSON number at the head of the text: \<^verbatim>\<open>-? (0 | [1-9][0-9]*) (. [0-9]+)? ([eE] [+-]? [0-9]+)?\<close>.
  Each part returns what it has read and what is left.
\<close>

definition lex_sign :: "jsstring \<Rightarrow> jsstring \<times> jsstring" where
  "lex_sign s = (case s of c # cs \<Rightarrow> if c = 0x2D then ([c], cs) else ([], s) | [] \<Rightarrow> ([], s))"

definition lex_int :: "jsstring \<Rightarrow> (jsstring \<times> jsstring) option" where
  "lex_int s =
     (case s of
        [] \<Rightarrow> None
      | c # cs \<Rightarrow>
          if c = 0x30 then Some ([c], cs)
          else if is_digit c then Some (c # takeWhile is_digit cs, dropWhile is_digit cs)
          else None)"

definition lex_digits1 :: "jsstring \<Rightarrow> (jsstring \<times> jsstring) option" where
  "lex_digits1 s =
     (if takeWhile is_digit s = [] then None
      else Some (takeWhile is_digit s, dropWhile is_digit s))"

definition lex_fraction :: "jsstring \<Rightarrow> (jsstring \<times> jsstring) option" where
  "lex_fraction s =
     (case s of
        c # cs \<Rightarrow>
          if c = 0x2E then
            (case lex_digits1 cs of None \<Rightarrow> None | Some (ds, r) \<Rightarrow> Some (c # ds, r))
          else Some ([], s)
      | [] \<Rightarrow> Some ([], s))"

definition lex_exponent :: "jsstring \<Rightarrow> (jsstring \<times> jsstring) option" where
  "lex_exponent s =
     (case s of
        c # cs \<Rightarrow>
          if c = 0x65 \<or> c = 0x45 then
            (case cs of
               g # gs \<Rightarrow>
                 if g = 0x2B \<or> g = 0x2D then
                   (case lex_digits1 gs of None \<Rightarrow> None | Some (ds, r) \<Rightarrow> Some (c # g # ds, r))
                 else
                   (case lex_digits1 cs of None \<Rightarrow> None | Some (ds, r) \<Rightarrow> Some (c # ds, r))
             | [] \<Rightarrow> None)
          else Some ([], s)
      | [] \<Rightarrow> Some ([], s))"

definition lex_number :: "jsstring \<Rightarrow> (jsstring \<times> jsstring) option" where
  "lex_number s =
     (case lex_sign s of (sg, s1) \<Rightarrow>
        (case lex_int s1 of
           None \<Rightarrow> None
         | Some (i, s2) \<Rightarrow>
             (case lex_fraction s2 of
                None \<Rightarrow> None
              | Some (f, s3) \<Rightarrow>
                  (case lex_exponent s3 of
                     None \<Rightarrow> None
                   | Some (e, s4) \<Rightarrow> Some (sg @ i @ f @ e, s4)))))"

definition is_json_space :: "code_unit \<Rightarrow> bool" where
  "is_json_space c \<longleftrightarrow> c = 0x09 \<or> c = 0x0A \<or> c = 0x0D \<or> c = 0x20"

definition cons_token :: "token \<Rightarrow> token list option \<Rightarrow> token list option" where
  "cons_token t r = (case r of None \<Rightarrow> None | Some ts \<Rightarrow> Some (t # ts))"

text \<open>
  The tokens of a JSON text, or \<open>None\<close> when some part of it is no token. White
  space between tokens is skipped.
\<close>

function tokenize :: "jsstring \<Rightarrow> token list option" where
  "tokenize [] = Some []"
| "tokenize (c # cs) =
     (if is_json_space c then tokenize cs
      else if c = 0x5B then cons_token LBracket (tokenize cs)
      else if c = 0x5D then cons_token RBracket (tokenize cs)
      else if c = 0x7B then cons_token LBrace (tokenize cs)
      else if c = 0x7D then cons_token RBrace (tokenize cs)
      else if c = 0x3A then cons_token Colon (tokenize cs)
      else if c = 0x2C then cons_token Comma (tokenize cs)
      else if c = 0x22 then
        (case lex_string cs of
           None \<Rightarrow> None
         | Some (s, r) \<Rightarrow> cons_token (TString s) (tokenize r))
      else if c = 0x2D \<or> is_digit c then
        (case lex_number (c # cs) of
           None \<Rightarrow> None
         | Some (n, r) \<Rightarrow> cons_token (TNumber n) (tokenize r))
      else if take 4 (c # cs) = js ''true'' then cons_token TTrue (tokenize (drop 4 (c # cs)))
      else if take 5 (c # cs) = js ''false'' then cons_token TFalse (tokenize (drop 5 (c # cs)))
      else if take 4 (c # cs) = js ''null'' then cons_token TNull (tokenize (drop 4 (c # cs)))
      else None)"
  by pat_completeness auto
termination
proof -
  have str: "length r \<le> length cs" if "lex_string cs = Some (s, r)" for cs s r
    using that
    by (induction cs arbitrary: s rule: lex_string.induct)
       (fastforce simp: cons_string_def split: if_splits list.splits option.splits)+
  have dig: "length r \<le> length cs" if "lex_digits1 cs = Some (ds, r)" for cs ds r
    using that length_dropWhile_le [of is_digit cs]
    by (auto simp: lex_digits1_def split: if_splits)
  have sgn: "length r \<le> length cs" if "lex_sign cs = (sg, r)" for cs sg r
    using that by (auto simp: lex_sign_def split: list.splits if_splits)
  have int: "length r < length cs" if "lex_int cs = Some (i, r)" for cs i r
  proof (cases cs)
    case Nil
    with that show ?thesis by (simp add: lex_int_def)
  next
    case (Cons d ds)
    with that length_dropWhile_le [of is_digit ds] show ?thesis
      by (auto simp: lex_int_def split: if_splits)
  qed
  have frac: "length r \<le> length cs" if "lex_fraction cs = Some (f, r)" for cs f r
    using that by (auto simp: lex_fraction_def split: list.splits if_splits option.splits dest!: dig)
  have expo: "length r \<le> length cs" if "lex_exponent cs = Some (e, r)" for cs e r
    using that by (auto simp: lex_exponent_def split: list.splits if_splits option.splits dest!: dig)
  have num: "length r < length cs" if "lex_number cs = Some (n, r)" for cs n r
  proof -
    from that obtain sg s1 i s2 f s3 e where
      "lex_sign cs = (sg, s1)" "lex_int s1 = Some (i, s2)"
      "lex_fraction s2 = Some (f, s3)" "lex_exponent s3 = Some (e, r)"
      by (auto simp: lex_number_def split: prod.splits option.splits)
    then show ?thesis
      using sgn int frac expo by fastforce
  qed
  show ?thesis
    by (relation "measure length") (auto dest: str num)
qed

text \<open>
  The grammar over the tokens, read by a pushdown automaton: the stack holds
  the arrays and objects that are still open, each with what it has collected.
  \<open>parse_value\<close> expects a value, \<open>parse_key\<close> a member of an object, and
  \<open>finish_value\<close> has read a value and hands it to the innermost open array or
  object, or returns it at the end of the text.
\<close>

datatype frame =
    InArray "json list"
  | InObject "(jsstring \<times> json) list" jsstring

fun parse_value :: "frame list \<Rightarrow> token list \<Rightarrow> json option"
  and parse_key :: "(jsstring \<times> json) list \<Rightarrow> frame list \<Rightarrow> token list \<Rightarrow> json option"
  and finish_value :: "json \<Rightarrow> frame list \<Rightarrow> token list \<Rightarrow> json option"
where
  "parse_value st (TNull # ts) = finish_value JNull st ts"
| "parse_value st (TTrue # ts) = finish_value (JBool True) st ts"
| "parse_value st (TFalse # ts) = finish_value (JBool False) st ts"
| "parse_value st (TNumber n # ts) = finish_value (JNumber n) st ts"
| "parse_value st (TString s # ts) = finish_value (JString s) st ts"
| "parse_value st (LBracket # RBracket # ts) = finish_value (JArray []) st ts"
| "parse_value st (LBracket # ts) = parse_value (InArray [] # st) ts"
| "parse_value st (LBrace # RBrace # ts) = finish_value (JObject []) st ts"
| "parse_value st (LBrace # ts) = parse_key [] st ts"
| "parse_value st ts = None"
| "parse_key ms st (TString k # Colon # ts) = parse_value (InObject ms k # st) ts"
| "parse_key ms st ts = None"
| "finish_value v [] ts = (if ts = [] then Some v else None)"
| "finish_value v (InArray vs # st) (Comma # ts) = parse_value (InArray (vs @ [v]) # st) ts"
| "finish_value v (InArray vs # st) (RBracket # ts) = finish_value (JArray (vs @ [v])) st ts"
| "finish_value v (InObject ms k # st) (Comma # ts) = parse_key (ms @ [(k, v)]) st ts"
| "finish_value v (InObject ms k # st) (RBrace # ts) = finish_value (JObject (ms @ [(k, v)])) st ts"
| "finish_value v st ts = None"

text \<open>\<^verbatim>\<open>JSON.parse\<close> throws a \<^verbatim>\<open>SyntaxError\<close> on a text that is no JSON text.\<close>

datatype syntax_error = SyntaxError

definition JSON_parse :: "jsstring \<Rightarrow> syntax_error + json" where
  "JSON_parse text =
     (case tokenize text of
        None \<Rightarrow> Inl SyntaxError
      | Some ts \<Rightarrow> (case parse_value [] ts of None \<Rightarrow> Inl SyntaxError | Some v \<Rightarrow> Inr v))"

section \<open>The submissions table\<close>

text \<open>
  better-sqlite3 binds a JavaScript string as UTF-8 text and reads a text column
  back as a JavaScript string. UTF-8 has no unpaired surrogate: one is stored as
  U+FFFD. Every other string comes back as it was bound.
\<close>

fun sqlite_text :: "jsstring \<Rightarrow> jsstring" where
  "sqlite_text [] = []"
| "sqlite_text [c] = [if is_surrogate c then 0xFFFD else c]"
| "sqlite_text (c # d # cs) =
     (if is_leading_surrogate c \<and> is_trailing_surrogate d then c # d # sqlite_text cs
      else (if is_surrogate c then 0xFFFD else c) # sqlite_text (d # cs))"

text \<open>
  A row of \<^verbatim>\<open>submissions\<close> (lines 30 to 41). The nullable columns are options.
  \<open>created_at\<close> is the \<^verbatim>\<open>CURRENT_TIMESTAMP\<close> of the insert, which SQLite writes to
  the second: it is modelled by the number of that second, and the order of the
  numbers is the order of the timestamps.
\<close>

record submission_row =
  row_id :: int
  row_name :: jsstring
  row_contact :: jsstring
  row_email :: "jsstring option"
  product_links :: "jsstring option"
  image_urls :: "jsstring option"
  created_at :: nat
  row_status :: "jsstring option"

text \<open>
  The table holds its rows in rowid order, and \<^verbatim>\<open>sqlite_sequence\<close> holds the
  largest rowid that \<^verbatim>\<open>AUTOINCREMENT\<close> has seen. A rowid is a signed 64-bit integer.
\<close>

record database =
  submissions :: "submission_row list"
  sqlite_sequence :: int

definition MAX_ROWID :: int where
  "MAX_ROWID = 9223372036854775807"

definition largest_rowid :: "submission_row list \<Rightarrow> int option" where
  "largest_rowid rs =
     (case rs of [] \<Rightarrow> None | r # rest \<Rightarrow> Some (fold max (map row_id rest) (row_id r)))"

text \<open>
  The rowid \<^verbatim>\<open>AUTOINCREMENT\<close> gives to a new row: 1 in an empty table and the
  successor of the largest rowid otherwise, but at least the successor of
  \<^verbatim>\<open>sqlite_sequence\<close>. When the largest rowid or \<^verbatim>\<open>sqlite_sequence\<close> has reached the
  largest 64-bit integer there is none, and SQLite refuses the insert.
\<close>

definition next_rowid :: "database \<Rightarrow> int option" where
  "next_rowid d =
     (case largest_rowid (submissions d) of
        None \<Rightarrow>
          if MAX_ROWID \<le> sqlite_sequence d then None
          else Some (max 1 (sqlite_sequence d + 1))
      | Some k \<Rightarrow>
          if MAX_ROWID \<le> k \<or> MAX_ROWID \<le> sqlite_sequence d then None
          else Some (max (k + 1) (sqlite_sequence d + 1)))"

text \<open>What the program can throw or reject with: an \<^verbatim>\<open>Error\<close> with its message.\<close>

datatype error = Error (message: jsstring)

definition SQLITE_FULL :: error where
  "SQLITE_FULL = Error (js ''database or disk is full'')"

text \<open>
  Lines 100 to 104: \<^verbatim>\<open>insert.run(name, contact, email || '', JSON.stringify(linksArray),
  JSON.stringify(uploadedUrls))\<close> at the second \<open>now\<close>. \<open>new_row\<close> is the row the
  statement writes: the five bound values, the rowid, and the defaults of
  \<^verbatim>\<open>created_at\<close> and \<^verbatim>\<open>status\<close>.

  The statement can throw, and then it writes nothing: when the storage fails
  (\<open>fault\<close> is the message: a full disk, an I/O error, a locked file, a value
  beyond the limits of SQLite), and when no rowid is left.
\<close>

definition new_row ::
  "int \<Rightarrow> nat \<Rightarrow> jsstring \<Rightarrow> jsstring \<Rightarrow> jsstring option \<Rightarrow> jsstring list \<Rightarrow> jsstring list \<Rightarrow>
   submission_row" where
  "new_row rowid now name contact email links uploadedUrls =
     \<lparr>row_id = rowid,
      row_name = sqlite_text name,
      row_contact = sqlite_text contact,
      row_email = Some (sqlite_text (or_else email [])),
      product_links = Some (sqlite_text (JSON_stringify links)),
      image_urls = Some (sqlite_text (JSON_stringify uploadedUrls)),
      created_at = now,
      row_status = Some (js ''pending'')\<rparr>"

definition insert_run ::
  "jsstring option \<Rightarrow> nat \<Rightarrow> jsstring \<Rightarrow> jsstring \<Rightarrow> jsstring option \<Rightarrow> jsstring list \<Rightarrow>
   jsstring list \<Rightarrow> database \<Rightarrow> error + database" where
  "insert_run fault now name contact email links uploadedUrls d =
     (case fault of
        Some msg \<Rightarrow> Inl (Error msg)
      | None \<Rightarrow>
          (case next_rowid d of
             None \<Rightarrow> Inl SQLITE_FULL
           | Some rowid \<Rightarrow>
               Inr (d\<lparr>submissions := submissions d @
                         [new_row rowid now name contact email links uploadedUrls],
                       sqlite_sequence := rowid\<rparr>)))"

text \<open>
  \<^verbatim>\<open>SELECT * FROM submissions ORDER BY created_at DESC\<close>: SQLite scans the table
  in rowid order and sorts the rows by the key; its sorter keeps rows with equal
  keys in the order of the scan.
\<close>

fun insert_desc :: "submission_row \<Rightarrow> submission_row list \<Rightarrow> submission_row list" where
  "insert_desc r [] = [r]"
| "insert_desc r (x # xs) =
     (if created_at x \<le> created_at r then r # x # xs else x # insert_desc r xs)"

definition order_by_created_at_desc :: "submission_row list \<Rightarrow> submission_row list" where
  "order_by_created_at_desc rs = foldr insert_desc rs []"

section \<open>The environment and the state of the world\<close>

type_synonym buffer = "8 word list"

record mail =
  mail_from :: "jsstring option"
  mail_to :: "jsstring option"
  mail_subject :: jsstring
  mail_html :: jsstring

text \<open>
  What the handler reads from outside. \<open>upload_stream\<close> is the answer of Cloudinary
  to an upload, given the uploads made before it: the message of the error, or
  the \<^verbatim>\<open>secure_url\<close> of the new asset. \<open>transporter\<close> is \<open>None\<close> when \<^verbatim>\<open>SMTP_HOST\<close> is
  not set (line 69); otherwise it holds the answer of the relay to a message,
  given the messages handed to it before: the message of the error, or \<open>None\<close>
  when the message is accepted. \<open>storage_fault\<close> is the message of the error with
  which the storage fails the insert of this request, or \<open>None\<close> when it does not
  fail.
\<close>

record env =
  upload_stream :: "buffer list \<Rightarrow> buffer \<Rightarrow> jsstring + jsstring"
  transporter :: "(mail list \<Rightarrow> mail \<Rightarrow> jsstring option) option"
  FROM_EMAIL :: "jsstring option"
  SMTP_USER :: "jsstring option"
  CURRENT_TIMESTAMP :: nat
  storage_fault :: "jsstring option"

text \<open>
  What the handler changes: the table, the calls made to the uploader and the
  assets Cloudinary holds, the messages handed to \<^verbatim>\<open>sendMail\<close>, and the errors
  written by \<^verbatim>\<open>console.error\<close>.
\<close>

record world =
  db :: database
  uploads :: "buffer list"
  assets :: "jsstring list"
  sent :: "mail list"
  console :: "error list"

text \<open>
  What the handler reads of the request: the four fields of \<^verbatim>\<open>req.body\<close> and the
  buffers of \<^verbatim>\<open>req.files\<close>, which is \<^verbatim>\<open>undefined\<close> (\<open>None\<close>) when the request was no
  multipart form. multer refuses a form with more than six files before the
  handler runs; the handler itself takes any number.
\<close>

record request =
  body_name :: "jsstring option"
  body_contact :: "jsstring option"
  body_email :: "jsstring option"
  body_links :: "jsstring option"
  files :: "buffer list option"

record response =
  res_status :: nat
  res_json :: json

section \<open>\<^verbatim>\<open>POST /api/submit\<close>\<close>

text \<open>Lines 54 to 65: the promise resolves with the URL or rejects with the error.\<close>

definition uploadBufferToCloudinary :: "env \<Rightarrow> buffer \<Rightarrow> world \<Rightarrow> (error + jsstring) \<times> world" where
  "uploadBufferToCloudinary e buffer w =
     (case upload_stream e (uploads w) buffer of
        Inl msg \<Rightarrow> (Inl (Error msg), w\<lparr>uploads := uploads w @ [buffer]\<rparr>)
      | Inr secure_url \<Rightarrow>
          (Inr secure_url,
           w\<lparr>uploads := uploads w @ [buffer], assets := assets w @ [secure_url]\<rparr>))"

text \<open>Lines 93 to 97: the loop over the files; a rejected upload leaves the loop.\<close>

fun upload_files :: "env \<Rightarrow> buffer list \<Rightarrow> jsstring list \<Rightarrow> world \<Rightarrow> (error + jsstring list) \<times> world" where
  "upload_files e [] uploadedUrls w = (Inr uploadedUrls, w)"
| "upload_files e (file # rest) uploadedUrls w =
     (case uploadBufferToCloudinary e file w of
        (Inl err, w') \<Rightarrow> (Inl err, w')
      | (Inr url, w') \<Rightarrow> upload_files e rest (uploadedUrls @ [url]) w')"

definition sendMail :: "(mail list \<Rightarrow> mail \<Rightarrow> jsstring option) \<Rightarrow> mail \<Rightarrow> world \<Rightarrow> (error + unit) \<times> world" where
  "sendMail relay m w =
     (case relay (sent w) m of
        Some msg \<Rightarrow> (Inl (Error msg), w\<lparr>sent := sent w @ [m]\<rparr>)
      | None \<Rightarrow> (Inr (), w\<lparr>sent := sent w @ [m]\<rparr>))"

text \<open>Lines 108 and 109: one list item per link or URL.\<close>

definition html_item :: "jsstring \<Rightarrow> jsstring" where
  "html_item l =
     js ''<li><a href='' @ [0x22] @ l @ [0x22] @ js '' target='' @ [0x22] @ js ''_blank'' @ [0x22] @
     js ''>'' @ l @ js ''</a></li>''"

definition indent :: "nat \<Rightarrow> jsstring" where
  "indent n = 0x0A # replicate n 0x20"

text \<open>Lines 111 to 120: the message to the shop.\<close>

definition internal_mail ::
  "env \<Rightarrow> jsstring \<Rightarrow> jsstring \<Rightarrow> jsstring option \<Rightarrow> jsstring list \<Rightarrow> jsstring list \<Rightarrow> mail" where
  "internal_mail e name contact email links uploadedUrls =
     \<lparr>mail_from = FROM_EMAIL e,
      mail_to = SMTP_USER e,
      mail_subject = js ''New product submission from '' @ name,
      mail_html =
        js ''<p><strong>Name:</strong> '' @ name @ js ''</p>'' @ indent 15 @
        js ''<p><strong>Contact:</strong> '' @ contact @ js ''</p>'' @ indent 15 @
        js ''<p><strong>Email:</strong> '' @ or_else email (js ''N/A'') @ js ''</p>'' @ indent 15 @
        js ''<p><strong>Links:</strong></p><ul>'' @ concat (map html_item links) @ js ''</ul>'' @
        indent 15 @
        js ''<p><strong>Images:</strong></p><ul>'' @ concat (map html_item uploadedUrls) @
        js ''</ul>''\<rparr>"

text \<open>Lines 123 to 132: the acknowledgment to the customer.\<close>

definition customer_mail :: "env \<Rightarrow> jsstring \<Rightarrow> jsstring \<Rightarrow> mail" where
  "customer_mail e name email =
     \<lparr>mail_from = FROM_EMAIL e,
      mail_to = Some email,
      mail_subject = js ''Thank You for Your Submission - Shiv Fashion Mart'',
      mail_html =
        js ''<p>Dear '' @ name @ js '',</p>'' @ indent 17 @
        js ''<p>Thank you for submitting your product details to Shiv Fashion Mart.</p>'' @
        indent 17 @
        js ''<p>We'' @ [0xE2, 0x20AC, 0x2122] @
        js ''re excited to offer you a <strong>20% discount</strong> on your next purchase!</p>'' @
        indent 17 @
        js ''<p>Our team will contact you shortly.</p>'' @ indent 17 @
        js ''<p>Best regards,<br>Shiv Fashion Mart Team</p>''\<rparr>"

text \<open>Lines 107 to 134: nothing is sent without a transporter; a rejected send is thrown.\<close>

definition send_emails ::
  "env \<Rightarrow> jsstring \<Rightarrow> jsstring \<Rightarrow> jsstring option \<Rightarrow> jsstring list \<Rightarrow> jsstring list \<Rightarrow> world \<Rightarrow>
   (error + unit) \<times> world" where
  "send_emails e name contact email links uploadedUrls w =
     (case transporter e of
        None \<Rightarrow> (Inr (), w)
      | Some relay \<Rightarrow>
          (case sendMail relay (internal_mail e name contact email links uploadedUrls) w of
             (Inl err, w') \<Rightarrow> (Inl err, w')
           | (Inr u, w') \<Rightarrow>
               (case email of
                  None \<Rightarrow> (Inr (), w')
                | Some address \<Rightarrow>
                    if address = [] then (Inr (), w')
                    else sendMail relay (customer_mail e name address) w')))"

text \<open>Lines 137 to 140: the \<^verbatim>\<open>catch\<close> of the handler.\<close>

definition catch :: "error \<Rightarrow> world \<Rightarrow> response \<times> world" where
  "catch err w =
     (\<lparr>res_status = 500,
       res_json = JObject [(js ''error'', JString (js ''Server error'')),
                           (js ''details'', JString (message err))]\<rparr>,
      w\<lparr>console := console w @ [err]\<rparr>)"

definition bad_request :: response where
  "bad_request =
     \<lparr>res_status = 400,
      res_json = JObject [(js ''error'', JString (js ''Name and contact are required.''))]\<rparr>"

definition success :: response where
  "success = \<lparr>res_status = 200, res_json = JObject [(js ''success'', JBool True)]\<rparr>"

text \<open>Lines 89 to 136, for a \<^verbatim>\<open>name\<close> and a \<^verbatim>\<open>contact\<close> that passed line 85.\<close>

definition process_submission ::
  "env \<Rightarrow> jsstring \<Rightarrow> jsstring \<Rightarrow> jsstring option \<Rightarrow> jsstring option \<Rightarrow> buffer list option \<Rightarrow>
   world \<Rightarrow> response \<times> world" where
  "process_submission e name contact email links fs w =
     (case upload_files e (case fs of None \<Rightarrow> [] | Some l \<Rightarrow> l) [] w of
        (Inl err, w1) \<Rightarrow> catch err w1
      | (Inr uploadedUrls, w1) \<Rightarrow>
          (case insert_run (storage_fault e) (CURRENT_TIMESTAMP e) name contact email
                  (linksArray links) uploadedUrls (db w1) of
             Inl err \<Rightarrow> catch err w1
           | Inr d \<Rightarrow>
               (case send_emails e name contact email (linksArray links) uploadedUrls
                       (w1\<lparr>db := d\<rparr>) of
                  (Inl err, w3) \<Rightarrow> catch err w3
                | (Inr u, w3) \<Rightarrow> (success, w3))))"

text \<open>
  Lines 82 to 141. Line 85, \<^verbatim>\<open>if (!name || !contact)\<close>, refuses a field that is
  missing or the empty string, and nothing else.
\<close>

definition submit :: "env \<Rightarrow> request \<Rightarrow> world \<Rightarrow> response \<times> world" where
  "submit e req w =
     (case (body_name req, body_contact req) of
        (Some name, Some contact) \<Rightarrow>
          if name = [] \<or> contact = [] then (bad_request, w)
          else process_submission e name contact (body_email req) (body_links req) (files req) w
      | _ \<Rightarrow> (bad_request, w))"

section \<open>\<^verbatim>\<open>GET /admin/submissions\<close>\<close>

text \<open>
  An object of the listing: the columns of the row, with \<^verbatim>\<open>product_links\<close> and
  \<^verbatim>\<open>image_urls\<close> replaced by what \<^verbatim>\<open>JSON.parse\<close> returns.
\<close>

record listed =
  out_id :: int
  out_name :: jsstring
  out_contact :: jsstring
  out_email :: "jsstring option"
  out_product_links :: json
  out_image_urls :: json
  out_created_at :: nat
  out_status :: "jsstring option"

text \<open>Lines 146 to 150: the function mapped over the rows; \<^verbatim>\<open>JSON.parse\<close> may throw.\<close>

definition parse_row :: "submission_row \<Rightarrow> syntax_error + listed" where
  "parse_row r =
     (case JSON_parse (or_else (product_links r) (js ''[]'')) of
        Inl err \<Rightarrow> Inl err
      | Inr links \<Rightarrow>
          (case JSON_parse (or_else (image_urls r) (js ''[]'')) of
             Inl err \<Rightarrow> Inl err
           | Inr urls \<Rightarrow>
               Inr \<lparr>out_id = row_id r, out_name = row_name r, out_contact = row_contact r,
                    out_email = row_email r, out_product_links = links, out_image_urls = urls,
                    out_created_at = created_at r, out_status = row_status r\<rparr>))"

fun map_parse_row :: "submission_row list \<Rightarrow> syntax_error + listed list" where
  "map_parse_row [] = Inr []"
| "map_parse_row (r # rs) =
     (case parse_row r of
        Inl err \<Rightarrow> Inl err
      | Inr p \<Rightarrow> (case map_parse_row rs of Inl err \<Rightarrow> Inl err | Inr ps \<Rightarrow> Inr (p # ps)))"

text \<open>
  Lines 144 to 152. The handler has no \<^verbatim>\<open>try\<close>: an exception of \<^verbatim>\<open>JSON.parse\<close>
  leaves it, and no listing is sent.
\<close>

definition admin_submissions :: "world \<Rightarrow> syntax_error + listed list" where
  "admin_submissions w = map_parse_row (order_by_created_at_desc (submissions (db w)))"

section \<open>Auxiliary definitions for the proofs\<close>

text \<open>The tokens of the elements of an array of strings.\<close>

fun string_tokens :: "jsstring list \<Rightarrow> token list" where
  "string_tokens [] = []"
| "string_tokens [x] = [TString x]"
| "string_tokens (x # y # ys) = TString x # Comma # string_tokens (y # ys)"

text \<open>
  Step 2 of the workflow in the words of the specification: split the raw links
  text on newlines, trim each line, drop empty lines, preserve order. The lines
  are cut off one after the other at the first line feed of what is left.
\<close>

function spec_lines :: "jsstring \<Rightarrow> jsstring list" where
  "spec_lines text =
     (if 0x0A \<in> set text
      then takeWhile (\<lambda>c. c \<noteq> 0x0A) text # spec_lines (tl (dropWhile (\<lambda>c. c \<noteq> 0x0A) text))
      else [text])"
  by pat_completeness auto
termination
proof (relation "measure length")
  show "wf (measure length)" by simp
next
  fix s :: jsstring
  assume "0x0A \<in> set s"
  then have "dropWhile (\<lambda>c. c \<noteq> 0x0A) s \<noteq> []"
    by simp
  with length_dropWhile_le [of "\<lambda>c. c \<noteq> 0x0A" s]
  show "(tl (dropWhile (\<lambda>c. c \<noteq> 0x0A) s), s) \<in> measure length"
    by (cases "dropWhile (\<lambda>c. c \<noteq> 0x0A) s") auto
qed

declare spec_lines.simps [simp del]

definition spec_parse_links :: "jsstring \<Rightarrow> jsstring list" where
  "spec_parse_links text =
     concat (map (\<lambda>line. if trim line = [] then [] else [trim line]) (spec_lines text))"

text \<open>
  The answers of Cloudinary to the uploads of the files \<open>fs\<close>, made one after the
  other after the calls \<open>calls\<close>: every upload succeeds, and \<open>us\<close> are the URLs in
  the order of the calls.
\<close>

fun uploads_answer :: "env \<Rightarrow> buffer list \<Rightarrow> buffer list \<Rightarrow> jsstring list \<Rightarrow> bool" where
  "uploads_answer e calls [] [] = True"
| "uploads_answer e calls (f # fs) (u # us) =
     (upload_stream e calls f = Inr u \<and> uploads_answer e (calls @ [f]) fs us)"
| "uploads_answer e calls fs us = False"

text \<open>
  A column that holds the JSON text of an array of strings, and a row whose two
  JSON columns do.
\<close>

fun is_string_array :: "json \<Rightarrow> bool" where
  "is_string_array (JArray vs) = list_all (\<lambda>v. case v of JString s \<Rightarrow> True | _ \<Rightarrow> False) vs"
| "is_string_array v = False"

definition column_ok :: "jsstring option \<Rightarrow> bool" where
  "column_ok c =
     (case c of
        None \<Rightarrow> False
      | Some t \<Rightarrow> (case JSON_parse t of Inl err \<Rightarrow> False | Inr v \<Rightarrow> is_string_array v))"

definition row_ok :: "submission_row \<Rightarrow> bool" where
  "row_ok r \<longleftrightarrow> column_ok (product_links r) \<and> column_ok (image_urls r)"

subsection \<open>Examples\<close>

text \<open>
  A world where nothing has happened yet; an environment without a mail relay
  in which every upload succeeds and the \<open>n\<close>-th upload returns a URL that ends
  in \<open>n\<close>; a form with a name and a contact and nothing else.
\<close>

definition fresh_world :: world where
  "fresh_world =
     \<lparr>db = \<lparr>submissions = [], sqlite_sequence = 0\<rparr>, uploads = [], assets = [], sent = [],
      console = []\<rparr>"

definition numbered_url :: "buffer list \<Rightarrow> jsstring" where
  "numbered_url calls = js ''https://res.cloudinary.com/u'' @ [0x31 + word_of_nat (length calls)]"

definition example_env :: "nat \<Rightarrow> env" where
  "example_env now =
     \<lparr>upload_stream = (\<lambda>calls buffer. Inr (numbered_url calls)), transporter = None,
      FROM_EMAIL = None, SMTP_USER = None, CURRENT_TIMESTAMP = now, storage_fault = None\<rparr>"

definition plain_request :: "jsstring \<Rightarrow> jsstring \<Rightarrow> request" where
  "plain_request name contact =
     \<lparr>body_name = Some name, body_contact = Some contact, body_email = None, body_links = None,
      files = None\<rparr>"

text \<open>
  An environment in which the second upload is rejected, and a form with three
  files.
\<close>

definition second_upload_fails :: env where
  "second_upload_fails =
     (example_env 7)\<lparr>upload_stream :=
        (\<lambda>calls buffer. if length calls = 1 then Inl (js ''timeout'') else Inr (numbered_url calls))\<rparr>"

definition three_files :: request where
  "three_files = (plain_request (js ''Asha'') (js ''555''))\<lparr>files := Some [[1], [2], [3]]\<rparr>"

text \<open>
  The table after an insert of A at second 1, and the world after an insert of B
  at second 2 into this table; a world whose table has used the largest rowid;
  an environment whose mail relay rejects every message; a row whose
  \<^verbatim>\<open>product_links\<close> is \<^verbatim>\<open>NULL\<close> and whose \<^verbatim>\<open>image_urls\<close> is the empty text; a row
  whose \<^verbatim>\<open>product_links\<close> is no JSON text.
\<close>

definition one_row :: database where
  "one_row =
     \<lparr>submissions = [new_row 1 1 (js ''A'') (js ''1'') None [] []], sqlite_sequence = 1\<rparr>"

definition two_rows :: world where
  "two_rows =
     fresh_world\<lparr>db := \<lparr>submissions = [new_row 1 1 (js ''A'') (js ''1'') None [] [],
                                      new_row 2 2 (js ''B'') (js ''2'') None [] []],
                       sqlite_sequence = 2\<rparr>\<rparr>"

definition last_rowid_used :: world where
  "last_rowid_used =
     fresh_world\<lparr>db := \<lparr>submissions = [new_row MAX_ROWID 1 (js ''A'') (js ''1'') None [] []],
                       sqlite_sequence = MAX_ROWID\<rparr>\<rparr>"

definition relay_refuses :: env where
  "relay_refuses = (example_env 7)\<lparr>transporter := Some (\<lambda>before m. Some (js ''refused''))\<rparr>"

definition absent_row :: submission_row where
  "absent_row = (new_row 1 7 (js ''A'') (js ''1'') None [] [])\<lparr>product_links := None, image_urls := Some []\<rparr>"

definition malformed_row :: submission_row where
  "malformed_row = (new_row 2 7 (js ''B'') (js ''2'') None [] [])\<lparr>product_links := Some (js ''{oops'')\<rparr>"

section \<open>Lemmas: JSON text\<close>

lemma take_bit4_less: "take_bit 4 (c :: code_unit) < 16"
  by (simp add: word_less_nat_alt unsigned_take_bit_eq take_bit_eq_mod unat_mod)

lemma drop_bit12_less: "drop_bit 12 (c :: code_unit) < 16"
proof -
  have "unat c < 65536" using unsigned_less [of c] by simp
  then show ?thesis
    by (simp add: word_less_nat_alt unsigned_drop_bit_eq drop_bit_eq_div unat_div)
qed

lemma hex_value_hex_digit: "d < 16 \<Longrightarrow> hex_value (hex_digit d) = Some d"
  unfolding hex_value_def hex_digit_def
  by (simp add: word_less_nat_alt word_le_nat_alt unat_word_ariths)

lemma nibbles: 
  "push_bit 12 (drop_bit 12 c) OR push_bit 8 (take_bit 4 (drop_bit 8 c)) OR
   push_bit 4 (take_bit 4 (drop_bit 4 c)) OR take_bit 4 c = (c :: code_unit)"
proof (rule bit_eqI)
  fix n :: nat
  consider "n < 4" | "4 \<le> n \<and> n < 8" | "8 \<le> n \<and> n < 12" | "12 \<le> n"
    by linarith
  then show "bit (push_bit 12 (drop_bit 12 c) OR push_bit 8 (take_bit 4 (drop_bit 8 c)) OR
      push_bit 4 (take_bit 4 (drop_bit 4 c)) OR take_bit 4 c) n = bit c n"
    by cases (auto simp add: bit_simps dest: bit_imp_le_length)
qed

lemma hex4_UnicodeEscape:
  "hex4 (hex_digit (drop_bit 12 c)) (hex_digit (take_bit 4 (drop_bit 8 c)))
        (hex_digit (take_bit 4 (drop_bit 4 c))) (hex_digit (take_bit 4 c)) = Some c"
  by (simp add: hex4_def hex_value_hex_digit take_bit4_less drop_bit12_less nibbles)

lemma lex_string_UnicodeEscape:
  "lex_string (UnicodeEscape c @ rest) = cons_string c (lex_string rest)"
  by (simp add: UnicodeEscape_def hex4_UnicodeEscape)

lemma lex_string_quote_code_unit:
  "lex_string (quote_code_unit c @ rest) = cons_string c (lex_string rest)"
  by (simp add: quote_code_unit_def lex_string_UnicodeEscape unescape_def is_surrogate_def)

lemma surrogate_ordinary:
  "is_leading_surrogate c \<or> is_trailing_surrogate c \<Longrightarrow> c \<noteq> 0x22 \<and> c \<noteq> 0x5C \<and> \<not> c < 0x20"
  by (auto simp: is_leading_surrogate_def is_trailing_surrogate_def word_le_nat_alt word_less_nat_alt)

lemma lex_string_quote_code_points:
  "lex_string (quote_code_points s @ 0x22 # rest) = Some (s, rest)"
proof (induction s rule: quote_code_points.induct)
  case 1
  show ?case by simp
next
  case (2 c)
  show ?case by (simp add: lex_string_quote_code_unit cons_string_def)
next
  case (3 c d cs)
  show ?case
  proof (cases "is_leading_surrogate c \<and> is_trailing_surrogate d")
    case True
    then have eq: "quote_code_points (c # d # cs) = c # d # quote_code_points cs"
      by simp
    from True 3 have ih: "lex_string (quote_code_points cs @ 0x22 # rest) = Some (cs, rest)"
      by blast
    from True surrogate_ordinary [of c] surrogate_ordinary [of d] show ?thesis
      by (simp add: eq ih cons_string_def del: quote_code_points.simps)
  next
    case False
    then have eq: "quote_code_points (c # d # cs) = quote_code_unit c @ quote_code_points (d # cs)"
      by auto
    from False 3 have ih: "lex_string (quote_code_points (d # cs) @ 0x22 # rest) = Some (d # cs, rest)"
      by blast
    show ?thesis
      by (simp add: eq ih lex_string_quote_code_unit cons_string_def del: quote_code_points.simps)
  qed
qed

lemma tokenize_QuoteJSONString:
  "tokenize (QuoteJSONString s @ rest) = cons_token (TString s) (tokenize rest)"
  by (simp add: QuoteJSONString_def lex_string_quote_code_points is_json_space_def)

lemma tokenize_join_comma:
  "xs \<noteq> [] \<Longrightarrow> tokenize (join_comma (map QuoteJSONString xs) @ [0x5D]) = Some (string_tokens xs @ [RBracket])"
proof (induction xs rule: string_tokens.induct)
  case 1
  then show ?case by simp
next
  case (2 x)
  show ?case
    by (simp add: tokenize_QuoteJSONString cons_token_def is_json_space_def)
next
  case (3 x y ys)
  then show ?case
    by (simp add: tokenize_QuoteJSONString cons_token_def is_json_space_def)
qed

lemma tokenize_JSON_stringify:
  "tokenize (JSON_stringify xs) = Some (LBracket # string_tokens xs @ [RBracket])"
proof (cases xs)
  case Nil
  then show ?thesis
    by (simp add: JSON_stringify_def cons_token_def is_json_space_def)
next
  case (Cons x ys)
  then have "xs \<noteq> []" by simp
  from tokenize_join_comma [OF this] show ?thesis
    by (simp add: JSON_stringify_def cons_token_def is_json_space_def)
qed

lemma parse_elements:
  "parse_value (InArray vs # st) (string_tokens (x # xs) @ RBracket # ts) =
     finish_value (JArray (vs @ map JString (x # xs))) st ts"
proof (induction xs arbitrary: vs x)
  case Nil
  show ?case by simp
next
  case (Cons y ys)
  from Cons [of "vs @ [JString x]" y] show ?case by simp
qed

lemma parse_string_tokens:
  "parse_value st (LBracket # string_tokens xs @ RBracket # ts) =
     finish_value (JArray (map JString xs)) st ts"
proof (cases xs)
  case Nil
  then show ?thesis by simp
next
  case (Cons x ys)
  with parse_elements [of "[]" st x ys ts] show ?thesis
    by (cases ys) simp_all
qed

lemma JSON_parse_stringify:
  "JSON_parse (JSON_stringify xs) = Inr (JArray (map JString xs))"
  using parse_string_tokens [of "[]" xs "[]"]
  by (simp add: JSON_parse_def tokenize_JSON_stringify)

lemma sqlite_text_ordinary:
  "\<not> is_surrogate c \<Longrightarrow> sqlite_text (c # rest) = c # sqlite_text rest"
  by (cases rest) (auto simp: is_surrogate_def is_leading_surrogate_def word_le_nat_alt)

lemma sqlite_text_ordinary_append:
  "list_all (\<lambda>c. \<not> is_surrogate c) xs \<Longrightarrow> sqlite_text (xs @ rest) = xs @ sqlite_text rest"
  by (induction xs) (simp_all add: sqlite_text_ordinary)

lemma hex_digit_ordinary: "d < 16 \<Longrightarrow> \<not> is_surrogate (hex_digit d)"
  by (simp add: hex_digit_def is_surrogate_def word_less_nat_alt word_le_nat_alt unat_word_ariths)

lemma ascii_ordinary: "c < 0x80 \<Longrightarrow> \<not> is_surrogate c"
  by (simp add: is_surrogate_def word_less_nat_alt word_le_nat_alt)

lemma UnicodeEscape_ordinary: "list_all (\<lambda>c. \<not> is_surrogate c) (UnicodeEscape c)"
  by (simp add: UnicodeEscape_def hex_digit_ordinary take_bit4_less drop_bit12_less ascii_ordinary)

lemma quote_code_unit_ordinary: "list_all (\<lambda>c. \<not> is_surrogate c) (quote_code_unit c)"
  by (simp add: quote_code_unit_def UnicodeEscape_ordinary ascii_ordinary)

lemma sqlite_text_quote_code_points:
  "sqlite_text (quote_code_points s @ rest) = quote_code_points s @ sqlite_text rest"
proof (induction s rule: quote_code_points.induct)
  case 1
  show ?case by simp
next
  case (2 c)
  show ?case
    by (simp add: sqlite_text_ordinary_append quote_code_unit_ordinary)
next
  case (3 c d cs)
  show ?case
  proof (cases "is_leading_surrogate c \<and> is_trailing_surrogate d")
    case True
    with 3 show ?thesis by simp
  next
    case False
    then have eq: "quote_code_points (c # d # cs) = quote_code_unit c @ quote_code_points (d # cs)"
      by auto
    from False 3 have ih: "sqlite_text (quote_code_points (d # cs) @ rest) = quote_code_points (d # cs) @ sqlite_text rest"
      by blast
    show ?thesis
      by (simp add: eq ih sqlite_text_ordinary_append quote_code_unit_ordinary
          del: quote_code_points.simps)
  qed
qed

lemma sqlite_text_QuoteJSONString:
  "sqlite_text (QuoteJSONString s @ rest) = QuoteJSONString s @ sqlite_text rest"
  by (simp add: QuoteJSONString_def sqlite_text_ordinary sqlite_text_quote_code_points
      ascii_ordinary)

lemma sqlite_text_join_comma:
  "sqlite_text (join_comma (map QuoteJSONString xs) @ rest) =
     join_comma (map QuoteJSONString xs) @ sqlite_text rest"
  by (induction xs rule: string_tokens.induct)
     (simp_all add: sqlite_text_QuoteJSONString sqlite_text_ordinary ascii_ordinary)

lemma sqlite_text_JSON_stringify: "sqlite_text (JSON_stringify xs) = JSON_stringify xs"
  by (simp add: JSON_stringify_def sqlite_text_ordinary sqlite_text_join_comma ascii_ordinary)

lemma JSON_stringify_not_Nil: "JSON_stringify xs \<noteq> []"
  by (simp add: JSON_stringify_def)

section \<open>Lemmas: the lines of a text\<close>

lemma split_lf_not_Nil: "split_lf s \<noteq> []"
  by (induction s) (auto split: list.splits)

lemma spec_lines_Nil: "spec_lines [] = [[]]"
  by (simp add: spec_lines.simps)

lemma spec_lines_lf: "spec_lines (0x0A # cs) = [] # spec_lines cs"
  by (subst spec_lines.simps) simp

lemma spec_lines_other:
  "c \<noteq> 0x0A \<Longrightarrow> spec_lines (c # cs) = (c # hd (spec_lines cs)) # tl (spec_lines cs)"
  by (subst spec_lines.simps, subst (2) spec_lines.simps, subst (3) spec_lines.simps) simp

lemma split_lf_spec_lines: "split_lf s = spec_lines s"
proof (induction s)
  case Nil
  show ?case by (simp add: spec_lines_Nil)
next
  case (Cons c cs)
  show ?case
  proof (cases "c = 0x0A")
    case True
    with Cons show ?thesis by (simp add: spec_lines_lf)
  next
    case False
    from Cons split_lf_not_Nil [of cs] obtain l ls where "spec_lines cs = l # ls"
      by (cases "spec_lines cs") auto
    with False Cons show ?thesis
      by (simp add: spec_lines_other)
  qed
qed

lemma filter_map_concat:
  "filter (\<lambda>s. s \<noteq> []) (map f xs) = concat (map (\<lambda>x. if f x = [] then [] else [f x]) xs)"
  by (induction xs) simp_all

lemma linksArray_spec: "linksArray links = spec_parse_links (case links of None \<Rightarrow> [] | Some t \<Rightarrow> t)"
  by (cases links) (simp_all add: linksArray_def spec_parse_links_def or_else_def split_lf_spec_lines filter_map_concat)

section \<open>Lemmas: the handlers\<close>

lemma uploads_answer_length: "uploads_answer e calls fs us \<Longrightarrow> length us = length fs"
  by (induction e calls fs us rule: uploads_answer.induct) simp_all

lemma upload_files_frame:
  "upload_files e fs acc w = (r, w') \<Longrightarrow> db w' = db w \<and> sent w' = sent w \<and> console w' = console w"
proof (induction fs arbitrary: acc w)
  case Nil
  then show ?case by simp
next
  case (Cons f fs)
  then show ?case
    by (cases "upload_stream e (uploads w) f")
       (fastforce simp: uploadBufferToCloudinary_def)+
qed

lemma upload_files_answered:
  "uploads_answer e (uploads w) fs us \<Longrightarrow>
   upload_files e fs acc w = (Inr (acc @ us), w\<lparr>uploads := uploads w @ fs, assets := assets w @ us\<rparr>)"
proof (induction fs arbitrary: acc w us)
  case Nil
  then show ?case by (cases us) simp_all
next
  case (Cons f fs)
  then obtain u us' where us: "us = u # us'" and u: "upload_stream e (uploads w) f = Inr u"
    and rest: "uploads_answer e (uploads w @ [f]) fs us'"
    by (cases us) auto
  from Cons.IH [of "w\<lparr>uploads := uploads w @ [f], assets := assets w @ [u]\<rparr>" us' "acc @ [u]"] rest
  show ?case
    by (simp add: us u uploadBufferToCloudinary_def)
qed

lemma upload_files_append:
  "upload_files e (pre @ rest) acc w =
     (case upload_files e pre acc w of
        (Inl err, w') \<Rightarrow> (Inl err, w')
      | (Inr urls, w') \<Rightarrow> upload_files e rest urls w')"
  by (induction pre arbitrary: acc w) (auto split: prod.splits sum.splits)

lemma upload_files_rejected:
  assumes "uploads_answer e (uploads w) pre us"
    and "upload_stream e (uploads w @ pre) file = Inl msg"
  shows "upload_files e (pre @ file # post) [] w =
     (Inl (Error msg), w\<lparr>uploads := uploads w @ pre @ [file], assets := assets w @ us\<rparr>)"
  using assms upload_files_answered [OF assms(1), of "[]"]
  by (simp add: upload_files_append uploadBufferToCloudinary_def)

lemma send_emails_frame:
  "send_emails e name contact email links urls w = (r, w') \<Longrightarrow>
     db w' = db w \<and> uploads w' = uploads w \<and> assets w' = assets w \<and> console w' = console w"
  by (auto simp: send_emails_def sendMail_def split: option.splits prod.splits sum.splits if_splits)

lemma submit_valid:
  "body_name req = Some name \<Longrightarrow> name \<noteq> [] \<Longrightarrow> body_contact req = Some contact \<Longrightarrow> contact \<noteq> [] \<Longrightarrow>
   submit e req w = process_submission e name contact (body_email req) (body_links req) (files req) w"
  by (simp add: submit_def)

lemma parse_row_new_row:
  "parse_row (new_row rowid now name contact email links urls) =
     Inr \<lparr>out_id = rowid, out_name = sqlite_text name, out_contact = sqlite_text contact,
          out_email = Some (sqlite_text (or_else email [])),
          out_product_links = JArray (map JString links),
          out_image_urls = JArray (map JString urls),
          out_created_at = now, out_status = Some (js ''pending'')\<rparr>"
  by (simp add: parse_row_def new_row_def sqlite_text_JSON_stringify or_else_def
      JSON_stringify_not_Nil JSON_parse_stringify)

lemma insert_run_Inr:
  "insert_run fault now name contact email links urls d = Inr d' \<longleftrightarrow>
     fault = None \<and>
     (\<exists>rowid. next_rowid d = Some rowid \<and>
        d' = d\<lparr>submissions := submissions d @ [new_row rowid now name contact email links urls],
               sqlite_sequence := rowid\<rparr>)"
  by (auto simp: insert_run_def split: option.splits)

lemma fold_max_in: "fold max xs (a :: int) \<in> set (a # xs)"
proof (induction xs arbitrary: a)
  case Nil
  show ?case by simp
next
  case (Cons x xs)
  from Cons [of "max a x"] show ?case
    by (auto simp: max_def split: if_splits)
qed

lemma largest_rowid_in:
  "largest_rowid rs = Some k \<Longrightarrow> k \<in> row_id ` set rs"
  using fold_max_in [of "map row_id (tl rs)" "row_id (hd rs)"]
  by (cases rs) (auto simp: largest_rowid_def)

lemma insert_run_succeeds:
  assumes "fault = None" and "sqlite_sequence d < MAX_ROWID"
    and "\<forall>r\<in>set (submissions d). row_id r < MAX_ROWID"
  shows "\<exists>d'. insert_run fault now name contact email links urls d = Inr d'"
proof (cases "largest_rowid (submissions d)")
  case None
  with assms(1,2) show ?thesis
    by (simp add: insert_run_def next_rowid_def)
next
  case (Some k)
  from largest_rowid_in [OF this] assms(3) have "k < MAX_ROWID"
    by auto
  with Some assms(1,2) show ?thesis
    by (simp add: insert_run_def next_rowid_def)
qed

lemma process_submission_after_uploads:
  assumes "uploads_answer e (uploads w) (case fs of None \<Rightarrow> [] | Some l \<Rightarrow> l) us"
  shows "process_submission e name contact email links fs w =
     (case insert_run (storage_fault e) (CURRENT_TIMESTAMP e) name contact email
             (linksArray links) us (db w) of
        Inl err \<Rightarrow>
          catch err (w\<lparr>uploads := uploads w @ (case fs of None \<Rightarrow> [] | Some l \<Rightarrow> l),
                        assets := assets w @ us\<rparr>)
      | Inr d \<Rightarrow>
          (case send_emails e name contact email (linksArray links) us
                  (w\<lparr>uploads := uploads w @ (case fs of None \<Rightarrow> [] | Some l \<Rightarrow> l),
                     assets := assets w @ us, db := d\<rparr>) of
             (Inl err, w3) \<Rightarrow> catch err w3
           | (Inr u, w3) \<Rightarrow> (success, w3)))"
  using upload_files_answered [OF assms, of "[]"]
  by (simp add: process_submission_def)

lemma process_submission_db:
  assumes "uploads_answer e (uploads w) (case fs of None \<Rightarrow> [] | Some l \<Rightarrow> l) us"
    and "insert_run (storage_fault e) (CURRENT_TIMESTAMP e) name contact email
           (linksArray links) us (db w) = Inr d"
  shows "db (snd (process_submission e name contact email links fs w)) = d"
proof -
  let ?w2 = "w\<lparr>uploads := uploads w @ (case fs of None \<Rightarrow> [] | Some l \<Rightarrow> l), assets := assets w @ us,
     db := d\<rparr>"
  obtain r w3 where s: "send_emails e name contact email (linksArray links) us ?w2 = (r, w3)"
    by (cases "send_emails e name contact email (linksArray links) us ?w2")
  from send_emails_frame [OF s] have "db w3 = d"
    by simp
  with s assms(2) show ?thesis
    by (cases r) (simp_all add: process_submission_after_uploads [OF assms(1)] catch_def)
qed

lemma process_submission_refused:
  assumes "uploads_answer e (uploads w) (case fs of None \<Rightarrow> [] | Some l \<Rightarrow> l) us"
    and "insert_run (storage_fault e) (CURRENT_TIMESTAMP e) name contact email
           (linksArray links) us (db w) = Inl err"
  shows "process_submission e name contact email links fs w =
     (\<lparr>res_status = 500,
       res_json = JObject [(js ''error'', JString (js ''Server error'')),
                           (js ''details'', JString (message err))]\<rparr>,
      w\<lparr>uploads := uploads w @ (case fs of None \<Rightarrow> [] | Some l \<Rightarrow> l),
        assets := assets w @ us,
        console := console w @ [err]\<rparr>)"
  using assms(2) by (simp add: process_submission_after_uploads [OF assms(1)] catch_def)

lemma process_submission_response:
  assumes "uploads_answer e (uploads w) (case fs of None \<Rightarrow> [] | Some l \<Rightarrow> l) us"
    and "insert_run (storage_fault e) (CURRENT_TIMESTAMP e) name contact email
           (linksArray links) us (db w) = Inr d"
  shows "fst (process_submission e name contact email links fs w) =
     (case fst (send_emails e name contact email (linksArray links) us
            (w\<lparr>uploads := uploads w @ (case fs of None \<Rightarrow> [] | Some l \<Rightarrow> l),
               assets := assets w @ us, db := d\<rparr>)) of
        Inl err \<Rightarrow> \<lparr>res_status = 500,
          res_json = JObject [(js ''error'', JString (js ''Server error'')),
                              (js ''details'', JString (message err))]\<rparr>
      | Inr u \<Rightarrow> success)"
  using assms(2)
  by (auto simp: process_submission_after_uploads [OF assms(1)] catch_def
      split: prod.splits sum.splits)

lemma process_submission_sent:
  assumes "uploads_answer e (uploads w) (case fs of None \<Rightarrow> [] | Some l \<Rightarrow> l) us"
    and "insert_run (storage_fault e) (CURRENT_TIMESTAMP e) name contact email
           (linksArray links) us (db w) = Inr d"
  shows "sent (snd (process_submission e name contact email links fs w)) =
     sent (snd (send_emails e name contact email (linksArray links) us
            (w\<lparr>uploads := uploads w @ (case fs of None \<Rightarrow> [] | Some l \<Rightarrow> l),
               assets := assets w @ us, db := d\<rparr>)))"
  using assms(2)
  by (auto simp: process_submission_after_uploads [OF assms(1)] catch_def
      split: prod.splits sum.splits)

lemma linksArray_empty: "\<not> truthy links \<Longrightarrow> linksArray links = []"
  by (auto simp: truthy_def linksArray_def or_else_def trim_def split: option.splits)

lemma JSON_stringify_Nil: "JSON_stringify [] = js ''[]''"
  by (simp add: JSON_stringify_def js_def)

lemma sqlite_text_empty_array: "sqlite_text (js ''[]'') = js ''[]''"
  using sqlite_text_JSON_stringify [of "[]"] by (simp add: JSON_stringify_Nil)

lemma db_after_submit:
  "db (snd (submit e req w)) = db w \<or>
   (\<exists>name contact us.
      insert_run (storage_fault e) (CURRENT_TIMESTAMP e) name contact (body_email req)
        (linksArray (body_links req)) us (db w) = Inr (db (snd (submit e req w))))"
proof (cases "\<exists>name contact. body_name req = Some name \<and> name \<noteq> [] \<and>
    body_contact req = Some contact \<and> contact \<noteq> []")
  case False
  then have "submit e req w = (bad_request, w)"
    by (auto simp: submit_def split: option.splits)
  then show ?thesis by simp
next
  case True
  then obtain name contact where v: "body_name req = Some name" "name \<noteq> []"
    "body_contact req = Some contact" "contact \<noteq> []" by blast
  let ?fs = "case files req of None \<Rightarrow> [] | Some l \<Rightarrow> l"
  obtain r w1 where u: "upload_files e ?fs [] w = (r, w1)"
    by (cases "upload_files e ?fs [] w")
  from upload_files_frame [OF u] have f1: "db w1 = db w" by simp
  show ?thesis
  proof (cases r)
    case (Inl err)
    with u f1 v show ?thesis
      by (simp add: submit_valid process_submission_def catch_def)
  next
    case (Inr us)
    show ?thesis
    proof (cases "insert_run (storage_fault e) (CURRENT_TIMESTAMP e) name contact (body_email req)
        (linksArray (body_links req)) us (db w)")
      case (Inl err)
      with u \<open>r = Inr us\<close> f1 v show ?thesis
        by (simp add: submit_valid process_submission_def catch_def)
    next
      case ins: (Inr d)
      obtain r2 w3 where s: "send_emails e name contact (body_email req)
          (linksArray (body_links req)) us (w1\<lparr>db := d\<rparr>) = (r2, w3)"
        by (cases "send_emails e name contact (body_email req) (linksArray (body_links req)) us
            (w1\<lparr>db := d\<rparr>)")
      from send_emails_frame [OF s] have "db w3 = d" by simp
      with u \<open>r = Inr us\<close> ins f1 s v have "db (snd (submit e req w)) = d"
        by (cases r2) (simp_all add: submit_valid process_submission_def catch_def)
      with ins show ?thesis by blast
    qed
  qed
qed

section \<open>Lemmas: the listing\<close>

lemma mset_insert_desc: "mset (insert_desc r xs) = add_mset r (mset xs)"
  by (induction xs) simp_all

lemma mset_order_by: "mset (order_by_created_at_desc rs) = mset rs"
  by (induction rs) (simp_all add: order_by_created_at_desc_def mset_insert_desc)

lemma set_order_by: "set (order_by_created_at_desc rs) = set rs"
  using mset_order_by [of rs] by (metis set_mset_mset)

lemma length_order_by: "length (order_by_created_at_desc rs) = length rs"
  using mset_order_by [of rs] by (metis size_mset)

lemma sorted_insert_desc:
  "sorted_wrt (\<lambda>a b. created_at b \<le> created_at a) xs \<Longrightarrow>
   sorted_wrt (\<lambda>a b. created_at b \<le> created_at a) (insert_desc r xs)"
proof (induction xs)
  case Nil
  show ?case by simp
next
  case (Cons x xs)
  have "set (insert_desc r xs) = insert r (set xs)"
    using mset_insert_desc [of r xs] by (metis set_mset_mset set_mset_add_mset_insert)
  with Cons show ?case by auto
qed

lemma sorted_order_by:
  "sorted_wrt (\<lambda>a b. created_at b \<le> created_at a) (order_by_created_at_desc rs)"
  by (induction rs) (simp_all add: order_by_created_at_desc_def sorted_insert_desc)

lemma map_parse_row_Inr: "map_parse_row rs = Inr ps \<longleftrightarrow> map parse_row rs = map Inr ps"
proof (induction rs arbitrary: ps)
  case Nil
  show ?case by auto
next
  case (Cons r rs)
  show ?case
  proof (cases "parse_row r")
    case (Inl err)
    then show ?thesis by (cases ps) auto
  next
    case (Inr p)
    show ?thesis
    proof (cases "map_parse_row rs")
      case (Inl err)
      with Cons [of "tl ps"] Inr show ?thesis by (cases ps) auto
    next
      case (Inr qs)
      with Cons [of qs] Cons [of "tl ps"] \<open>parse_row r = Inr p\<close> show ?thesis
        by (cases ps) auto
    qed
  qed
qed

lemma map_parse_row_total:
  "\<forall>r\<in>set rs. \<exists>p. parse_row r = Inr p \<Longrightarrow> \<exists>ps. map_parse_row rs = Inr ps"
  by (induction rs) auto

lemma only_SyntaxError: "(e :: syntax_error) = SyntaxError"
  by (cases e) simp

lemma map_parse_row_throws:
  "r \<in> set rs \<Longrightarrow> parse_row r = Inl err \<Longrightarrow> map_parse_row rs = Inl SyntaxError"
proof (induction rs)
  case Nil
  then show ?case by simp
next
  case (Cons x xs)
  have one: "e = SyntaxError" for e :: syntax_error by (cases e) simp
  from Cons show ?case
    by (auto split: sum.splits simp: one)
qed

lemma parse_row_columns:
  "parse_row r = Inr p \<Longrightarrow>
   out_id p = row_id r \<and> out_name p = row_name r \<and> out_contact p = row_contact r \<and>
   out_email p = row_email r \<and> out_created_at p = created_at r \<and> out_status p = row_status r"
  by (auto simp: parse_row_def split: sum.splits)

lemma listing_sorted:
  assumes "map parse_row rs = map Inr l"
    and "sorted_wrt (\<lambda>a b. created_at b \<le> created_at a) rs"
  shows "sorted_wrt (\<lambda>a b. out_created_at b \<le> out_created_at a) l"
proof -
  from assms(1) have len: "length l = length rs"
    by (metis length_map)
  have col: "out_created_at (l ! i) = created_at (rs ! i)" if "i < length rs" for i
  proof -
    from that len assms(1) have "parse_row (rs ! i) = Inr (l ! i)"
      by (metis nth_map)
    then show ?thesis by (simp add: parse_row_columns)
  qed
  from assms(2) len col show ?thesis
    by (simp add: sorted_wrt_iff_nth_less)
qed

lemma JSON_parse_empty_array: "JSON_parse (js ''[]'') = Inr (JArray [])"
  using JSON_parse_stringify [of "[]"] by (simp add: JSON_stringify_Nil)

lemma or_else_falsy: "\<not> truthy v \<Longrightarrow> or_else v d = d"
  by (auto simp: truthy_def or_else_def split: option.splits)

lemma is_string_array_strings: "is_string_array (JArray (map JString xs))"
  by (simp add: list_all_iff)

lemma row_ok_new_row: "row_ok (new_row rowid now name contact email links urls)"
  by (simp add: row_ok_def column_ok_def new_row_def sqlite_text_JSON_stringify
      JSON_parse_stringify is_string_array_strings del: is_string_array.simps)

lemma JSON_parse_Nil: "JSON_parse [] = Inl SyntaxError"
  by (simp add: JSON_parse_def)

lemma column_ok_parses:
  "column_ok c \<Longrightarrow> \<exists>v. JSON_parse (or_else c d) = Inr v"
  by (cases c) (auto simp: column_ok_def or_else_def JSON_parse_Nil split: sum.splits)

lemma row_ok_parses: "row_ok r \<Longrightarrow> \<exists>p. parse_row r = Inr p"
  using column_ok_parses [of "product_links r" "js ''[]''"]
    column_ok_parses [of "image_urls r" "js ''[]''"]
  by (auto simp: row_ok_def parse_row_def)

section \<open>The claims\<close>




text \<open>
  C2: when the uploads of the first \<open>i - 1\<close> files (\<open>pre\<close>) succeed with the URLs
  \<open>us\<close> and the upload of file \<open>i\<close> is rejected with the message \<open>msg\<close>, the handler
  answers with status 500, the table is unchanged, the uploader has been called
  for the first \<open>i\<close> files and for nothing else, and the assets of the \<open>i - 1\<close>
  earlier uploads are still held by Cloudinary next to the ones it held before.
\<close>

theorem failed_upload_aborts_without_insert_or_cleanup:
  assumes "body_name req = Some name" and "name \<noteq> []"
    and "body_contact req = Some contact" and "contact \<noteq> []"
    and "files req = Some (pre @ file # post)"
    and "uploads_answer e (uploads w) pre us"
    and "upload_stream e (uploads w @ pre) file = Inl msg"
  shows "fst (submit e req w) =
      \<lparr>res_status = 500,
       res_json = JObject [(js ''error'', JString (js ''Server error'')),
                           (js ''details'', JString msg)]\<rparr> \<and>
    db (snd (submit e req w)) = db w \<and>
    uploads (snd (submit e req w)) = uploads w @ pre @ [file] \<and>
    assets (snd (submit e req w)) = assets w @ us \<and> length us = length pre \<and>
    sent (snd (submit e req w)) = sent w"
  using assms upload_files_rejected [OF assms(6,7), of post] uploads_answer_length [OF assms(6)]
  by (simp add: submit_valid process_submission_def catch_def)

theorem failed_upload_aborts_without_insert_or_cleanup_witness:
  "uploads_answer second_upload_fails (uploads fresh_world) [[1]] [numbered_url []] \<and>
   upload_stream second_upload_fails (uploads fresh_world @ [[1]]) [2] = Inl (js ''timeout'') \<and>
   res_status (fst (submit second_upload_fails three_files fresh_world)) = 500 \<and>
   db (snd (submit second_upload_fails three_files fresh_world)) = db fresh_world \<and>
   uploads (snd (submit second_upload_fails three_files fresh_world)) = [[1], [2]] \<and>
   assets (snd (submit second_upload_fails three_files fresh_world)) = [numbered_url []]"
proof -
  have h1: "body_name three_files = Some (js ''Asha'')" and h2: "js ''Asha'' \<noteq> []"
    and h3: "body_contact three_files = Some (js ''555'')" and h4: "js ''555'' \<noteq> []"
    and h5: "files three_files = Some ([[1]] @ [2] # [[3]])"
    by (simp_all add: three_files_def plain_request_def js_def)
  have h6: "uploads_answer second_upload_fails (uploads fresh_world) [[1]] [numbered_url []]"
    by (simp add: second_upload_fails_def example_env_def fresh_world_def)
  have h7: "upload_stream second_upload_fails (uploads fresh_world @ [[1]]) [2] = Inl (js ''timeout'')"
    by (simp add: second_upload_fails_def example_env_def fresh_world_def)
  from failed_upload_aborts_without_insert_or_cleanup [OF h1 h2 h3 h4 h5 h6 h7] h6 h7
  show ?thesis by (simp add: fresh_world_def)
qed

text \<open>
  C3: the row that an insert writes for the sequences \<open>links\<close> and \<open>urls\<close> is read
  by the listing as the arrays of exactly these strings, in this order, whatever
  the strings are. When the listing could be sent before the insert, it can be
  sent after it, has one more object, and the object of the new row holds the
  two arrays. An insert that throws writes no row, and the claim is about the
  sequences that were inserted; the insert does not throw when the storage does
  not fail and the largest rowid has not been used.
\<close>

theorem inserted_sequences_are_listed_unchanged:
  "(insert_run fault now name contact email links urls d = Inr d' \<longrightarrow>
      (\<exists>p. parse_row (last (submissions d')) = Inr p \<and>
        out_product_links p = JArray (map JString links) \<and>
        out_image_urls p = JArray (map JString urls))) \<and>
   (insert_run fault now name contact email links urls (db w) = Inr d2 \<and>
    admin_submissions w = Inr old \<longrightarrow>
      (\<exists>l p. admin_submissions (w\<lparr>db := d2\<rparr>) = Inr l \<and>
         length l = Suc (length old) \<and> p \<in> set l \<and> next_rowid (db w) = Some (out_id p) \<and>
         out_product_links p = JArray (map JString links) \<and>
         out_image_urls p = JArray (map JString urls))) \<and>
   (fault = None \<and> sqlite_sequence d < MAX_ROWID \<and>
    (\<forall>r\<in>set (submissions d). row_id r < MAX_ROWID) \<longrightarrow>
      (\<exists>d3. insert_run fault now name contact email links urls d = Inr d3))"
proof (intro conjI impI)
  assume "fault = None \<and> sqlite_sequence d < MAX_ROWID \<and>
    (\<forall>r\<in>set (submissions d). row_id r < MAX_ROWID)"
  then show "\<exists>d3. insert_run fault now name contact email links urls d = Inr d3"
    by (simp add: insert_run_succeeds)
next
  assume "insert_run fault now name contact email links urls d = Inr d'"
  then show "\<exists>p. parse_row (last (submissions d')) = Inr p \<and>
        out_product_links p = JArray (map JString links) \<and>
        out_image_urls p = JArray (map JString urls)"
    by (auto simp: insert_run_Inr parse_row_new_row)
next
  assume a: "insert_run fault now name contact email links urls (db w) = Inr d2 \<and>
    admin_submissions w = Inr old"
  then obtain rowid where rowid: "next_rowid (db w) = Some rowid"
    and d2: "d2 = (db w)\<lparr>submissions := submissions (db w) @
        [new_row rowid now name contact email links urls], sqlite_sequence := rowid\<rparr>"
    by (auto simp: insert_run_Inr)
  from a have old: "admin_submissions w = Inr old" ..
  let ?r = "new_row rowid now name contact email links urls"
  let ?rs = "order_by_created_at_desc (submissions (db w) @ [?r])"
  obtain p where p: "parse_row ?r = Inr p" "out_id p = rowid"
    "out_product_links p = JArray (map JString links)" "out_image_urls p = JArray (map JString urls)"
    by (simp add: parse_row_new_row)
  from old have m: "map parse_row (order_by_created_at_desc (submissions (db w))) = map Inr old"
    by (simp add: admin_submissions_def map_parse_row_Inr)
  have "\<exists>q. parse_row r = Inr q" if "r \<in> set (submissions (db w))" for r
  proof -
    from that have "parse_row r \<in> set (map parse_row (order_by_created_at_desc (submissions (db w))))"
      by (simp add: set_order_by)
    with m show ?thesis by auto
  qed
  with p(1) have "\<forall>r\<in>set ?rs. \<exists>q. parse_row r = Inr q"
    by (auto simp: set_order_by)
  from map_parse_row_total [OF this] obtain l where l: "map_parse_row ?rs = Inr l" ..
  then have ml: "map parse_row ?rs = map Inr l"
    by (simp add: map_parse_row_Inr)
  from m have "length old = length (submissions (db w))"
    by (metis length_map length_order_by)
  moreover from ml have "length l = length (submissions (db w) @ [?r])"
    by (metis length_map length_order_by)
  ultimately have len: "length l = Suc (length old)" by simp
  have "parse_row ?r \<in> set (map parse_row ?rs)"
    by (simp add: set_order_by)
  with ml p(1) have "p \<in> set l" by auto
  with l len p rowid show "\<exists>l p. admin_submissions (w\<lparr>db := d2\<rparr>) = Inr l \<and>
         length l = Suc (length old) \<and> p \<in> set l \<and> next_rowid (db w) = Some (out_id p) \<and>
         out_product_links p = JArray (map JString links) \<and>
         out_image_urls p = JArray (map JString urls)"
    by (auto simp: admin_submissions_def d2)
qed

theorem inserted_sequences_are_listed_unchanged_witness:
  "admin_submissions fresh_world = Inr [] \<and>
   insert_run None 1 (js ''A'') (js ''1'') None [[0x22, 0x5C, 0x0A, 0xD800, 0x20AC]] [js ''u1'', []]
     (db fresh_world) =
     Inr \<lparr>submissions = [new_row 1 1 (js ''A'') (js ''1'') None
                            [[0x22, 0x5C, 0x0A, 0xD800, 0x20AC]] [js ''u1'', []]],
          sqlite_sequence = 1\<rparr> \<and>
   (\<exists>l p. admin_submissions
       (fresh_world\<lparr>db := \<lparr>submissions = [new_row 1 1 (js ''A'') (js ''1'') None
                            [[0x22, 0x5C, 0x0A, 0xD800, 0x20AC]] [js ''u1'', []]],
          sqlite_sequence = 1\<rparr>\<rparr>) = Inr l \<and>
      length l = 1 \<and> p \<in> set l \<and>
      out_product_links p = JArray [JString [0x22, 0x5C, 0x0A, 0xD800, 0x20AC]] \<and>
      out_image_urls p = JArray [JString (js ''u1''), JString []])"
proof -
  have h: "admin_submissions fresh_world = Inr []"
    by (simp add: admin_submissions_def fresh_world_def order_by_created_at_desc_def)
  have i: "insert_run None 1 (js ''A'') (js ''1'') None [[0x22, 0x5C, 0x0A, 0xD800, 0x20AC]]
     [js ''u1'', []] (db fresh_world) =
     Inr \<lparr>submissions = [new_row 1 1 (js ''A'') (js ''1'') None
                            [[0x22, 0x5C, 0x0A, 0xD800, 0x20AC]] [js ''u1'', []]],
          sqlite_sequence = 1\<rparr>"
    by (simp add: insert_run_def next_rowid_def largest_rowid_def MAX_ROWID_def fresh_world_def)
  have s: "(None :: jsstring option) = None \<and> sqlite_sequence (db fresh_world) < MAX_ROWID \<and>
    (\<forall>r\<in>set (submissions (db fresh_world)). row_id r < MAX_ROWID)"
    by (simp add: fresh_world_def MAX_ROWID_def)
  from inserted_sequences_are_listed_unchanged
    [where fault = None and d = "db fresh_world" and now = 1 and name = "js ''A''"
       and contact = "js ''1''" and email = None
       and links = "[[0x22, 0x5C, 0x0A, 0xD800, 0x20AC]]" and urls = "[js ''u1'', []]",
     THEN conjunct2, THEN conjunct2] s
  have "\<exists>d3. insert_run None 1 (js ''A'') (js ''1'') None [[0x22, 0x5C, 0x0A, 0xD800, 0x20AC]]
     [js ''u1'', []] (db fresh_world) = Inr d3"
    by blast
  from inserted_sequences_are_listed_unchanged
    [where w = fresh_world and old = "[]", THEN conjunct2, THEN conjunct1, rule_format,
     OF conjI, OF i h] h i
  show ?thesis by auto
qed

text \<open>
  C4: for every raw links text (and for a missing \<^verbatim>\<open>links\<close> field, read as the
  empty text), the list computed at line 89 is the one the specification
  describes: the text is split at the line feeds, each line is trimmed, the
  lines that are empty after trimming are dropped, and the others keep their
  order. For the text of the specification's example, two links with blank lines
  between and after them, the result is the two links.
\<close>

theorem linksArray_splits_trims_drops:
  "linksArray links = spec_parse_links (case links of None \<Rightarrow> [] | Some t \<Rightarrow> t) \<and>
   linksArray (Some (js ''http://a.com'' @ [0x0A, 0x0A] @ js ''http://b.com'' @
                     [0x0A, 0x20, 0x20, 0x0A])) =
     [js ''http://a.com'', js ''http://b.com'']"
proof
  show "linksArray links = spec_parse_links (case links of None \<Rightarrow> [] | Some t \<Rightarrow> t)"
    by (rule linksArray_spec)
  show "linksArray (Some (js ''http://a.com'' @ [0x0A, 0x0A] @ js ''http://b.com'' @
                     [0x0A, 0x20, 0x20, 0x0A])) =
     [js ''http://a.com'', js ''http://b.com'']"
    by code_simp
qed

theorem linksArray_splits_trims_drops_witness:
  "linksArray (Some (js '' x'' @ [0x0D, 0x0A, 0x09, 0x0A] @ js ''y z ''))
     = spec_parse_links (js '' x'' @ [0x0D, 0x0A, 0x09, 0x0A] @ js ''y z '') \<and>
   spec_parse_links (js '' x'' @ [0x0D, 0x0A, 0x09, 0x0A] @ js ''y z '') = [js ''x'', js ''y z'']"
proof -
  have "spec_parse_links (js '' x'' @ [0x0D, 0x0A, 0x09, 0x0A] @ js ''y z '') = [js ''x'', js ''y z'']"
    by code_simp
  with linksArray_splits_trims_drops [of "Some (js '' x'' @ [0x0D, 0x0A, 0x09, 0x0A] @ js ''y z '')"]
  show ?thesis by simp
qed

text \<open>
  C5: when every upload of a submission that passed line 85 succeeds, the
  uploads return the URLs \<open>us\<close> in the order of the calls, and the insert of line
  104 does not throw, the table after the call is the one the insert returns:
  the old rows and one new row, which holds the JSON text of \<open>us\<close> in
  \<^verbatim>\<open>image_urls\<close>; the listing reads it back as the array of the strings \<open>us\<close>, and
  \<open>us\<close> has one URL for each file.
\<close>

theorem uploaded_urls_are_persisted_in_upload_order:
  assumes "body_name req = Some name" and "name \<noteq> []"
    and "body_contact req = Some contact" and "contact \<noteq> []"
    and "uploads_answer e (uploads w) (case files req of None \<Rightarrow> [] | Some l \<Rightarrow> l) us"
    and "insert_run (storage_fault e) (CURRENT_TIMESTAMP e) name contact (body_email req)
           (linksArray (body_links req)) us (db w) = Inr d"
  shows "db (snd (submit e req w)) = d \<and>
    (\<exists>r p. submissions d = submissions (db w) @ [r] \<and>
      image_urls r = Some (JSON_stringify us) \<and>
      parse_row r = Inr p \<and> out_image_urls p = JArray (map JString us) \<and>
      length us = length (case files req of None \<Rightarrow> [] | Some l \<Rightarrow> l))"
proof -
  from assms(6) obtain rowid where d: "d = (db w)\<lparr>submissions := submissions (db w) @
        [new_row rowid (CURRENT_TIMESTAMP e) name contact (body_email req)
           (linksArray (body_links req)) us], sqlite_sequence := rowid\<rparr>"
    by (auto simp: insert_run_Inr)
  have "image_urls (new_row rowid (CURRENT_TIMESTAMP e) name contact (body_email req)
           (linksArray (body_links req)) us) = Some (JSON_stringify us)"
    by (simp add: new_row_def sqlite_text_JSON_stringify)
  with assms(1-4) process_submission_db [OF assms(5,6)] uploads_answer_length [OF assms(5)]
  show ?thesis
    by (simp add: submit_valid d parse_row_new_row)
qed

theorem uploaded_urls_are_persisted_in_upload_order_witness:
  "uploads_answer (example_env 7) (uploads fresh_world) [[1], [2], [3]]
     [js ''https://res.cloudinary.com/u1'', js ''https://res.cloudinary.com/u2'',
      js ''https://res.cloudinary.com/u3''] \<and>
   (\<exists>d. insert_run (storage_fault (example_env 7)) (CURRENT_TIMESTAMP (example_env 7))
           (js ''Asha'') (js ''555'') (body_email three_files) (linksArray (body_links three_files))
           [js ''https://res.cloudinary.com/u1'', js ''https://res.cloudinary.com/u2'',
            js ''https://res.cloudinary.com/u3''] (db fresh_world) = Inr d) \<and>
   (\<exists>r p. submissions (db (snd (submit (example_env 7) three_files fresh_world))) = [r] \<and>
      image_urls r = Some (JSON_stringify [js ''https://res.cloudinary.com/u1'',
        js ''https://res.cloudinary.com/u2'', js ''https://res.cloudinary.com/u3'']) \<and>
      parse_row r = Inr p \<and>
      out_image_urls p = JArray [JString (js ''https://res.cloudinary.com/u1''),
        JString (js ''https://res.cloudinary.com/u2''), JString (js ''https://res.cloudinary.com/u3'')])"
proof -
  let ?us = "[js ''https://res.cloudinary.com/u1'', js ''https://res.cloudinary.com/u2'',
      js ''https://res.cloudinary.com/u3'']"
  have h1: "body_name three_files = Some (js ''Asha'')" and h2: "js ''Asha'' \<noteq> []"
    and h3: "body_contact three_files = Some (js ''555'')" and h4: "js ''555'' \<noteq> []"
    by (simp_all add: three_files_def plain_request_def js_def)
  have h5: "uploads_answer (example_env 7) (uploads fresh_world)
     (case files three_files of None \<Rightarrow> [] | Some l \<Rightarrow> l) ?us"
    by (simp add: three_files_def plain_request_def example_env_def fresh_world_def
        numbered_url_def js_def)
  obtain d where h6: "insert_run (storage_fault (example_env 7)) (CURRENT_TIMESTAMP (example_env 7))
           (js ''Asha'') (js ''555'') (body_email three_files) (linksArray (body_links three_files))
           ?us (db fresh_world) = Inr d"
    by (simp add: insert_run_def next_rowid_def largest_rowid_def MAX_ROWID_def fresh_world_def
        example_env_def)
  from uploaded_urls_are_persisted_in_upload_order [OF h1 h2 h3 h4 h5 h6] h5 h6
  show ?thesis by (auto simp: fresh_world_def three_files_def)
qed

text \<open>
  C6, as amended: a listing that is sent holds one object for every row of the
  table, ordered by \<^verbatim>\<open>created_at\<close> descending. After an insert of A into an empty
  table and an insert of B at a later second, neither of which throws, the
  listing is B, then A.
\<close>

theorem listing_is_ordered_by_created_at:
  "(admin_submissions w = Inr l \<longrightarrow>
      sorted_wrt (\<lambda>a b. out_created_at b \<le> out_created_at a) l \<and>
      (\<exists>rs. mset rs = mset (submissions (db w)) \<and> map parse_row rs = map Inr l)) \<and>
   (submissions d = [] \<and> tA < tB \<and>
    insert_run faultA tA nameA contactA emailA linksA urlsA d = Inr d1 \<and>
    insert_run faultB tB nameB contactB emailB linksB urlsB d1 = Inr d2 \<longrightarrow>
      (\<exists>a b. admin_submissions (w\<lparr>db := d2\<rparr>) = Inr [b, a] \<and>
         out_name a = sqlite_text nameA \<and> out_created_at a = tA \<and>
         out_product_links a = JArray (map JString linksA) \<and>
         out_name b = sqlite_text nameB \<and> out_created_at b = tB \<and>
         out_product_links b = JArray (map JString linksB) \<and>
         out_id a < out_id b))"
proof (intro conjI impI)
  assume a: "admin_submissions w = Inr l"
  then have m: "map parse_row (order_by_created_at_desc (submissions (db w))) = map Inr l"
    by (simp add: admin_submissions_def map_parse_row_Inr)
  from listing_sorted [OF m sorted_order_by]
  show "sorted_wrt (\<lambda>a b. out_created_at b \<le> out_created_at a) l" .
  from m mset_order_by [of "submissions (db w)"]
  show "\<exists>rs. mset rs = mset (submissions (db w)) \<and> map parse_row rs = map Inr l"
    by blast
next
  assume h: "submissions d = [] \<and> tA < tB \<and>
    insert_run faultA tA nameA contactA emailA linksA urlsA d = Inr d1 \<and>
    insert_run faultB tB nameB contactB emailB linksB urlsB d1 = Inr d2"
  then obtain rA where rA: "next_rowid d = Some rA"
    and d1: "d1 = d\<lparr>submissions := [new_row rA tA nameA contactA emailA linksA urlsA],
        sqlite_sequence := rA\<rparr>"
    by (auto simp: insert_run_Inr)
  from h obtain rB where rB: "next_rowid d1 = Some rB"
    and d2: "d2 = d1\<lparr>submissions := submissions d1 @
        [new_row rB tB nameB contactB emailB linksB urlsB], sqlite_sequence := rB\<rparr>"
    by (auto simp: insert_run_Inr)
  from rB have "rA < rB"
    by (auto simp: d1 next_rowid_def largest_rowid_def new_row_def split: if_splits)
  with h show "\<exists>a b. admin_submissions (w\<lparr>db := d2\<rparr>) = Inr [b, a] \<and>
         out_name a = sqlite_text nameA \<and> out_created_at a = tA \<and>
         out_product_links a = JArray (map JString linksA) \<and>
         out_name b = sqlite_text nameB \<and> out_created_at b = tB \<and>
         out_product_links b = JArray (map JString linksB) \<and>
         out_id a < out_id b"
    by (simp add: admin_submissions_def d1 d2 order_by_created_at_desc_def parse_row_new_row)
       (simp add: new_row_def)
qed

theorem listing_is_ordered_by_created_at_witness:
  "submissions (db fresh_world) = [] \<and> (1::nat) < 2 \<and>
   insert_run None 1 (js ''A'') (js ''1'') None [] [] (db fresh_world) = Inr one_row \<and>
   insert_run None 2 (js ''B'') (js ''2'') None [] [] one_row = Inr (db two_rows) \<and>
   (\<exists>a b. admin_submissions two_rows = Inr [b, a] \<and>
      out_name a = js ''A'' \<and> out_created_at a = 1 \<and>
      out_name b = js ''B'' \<and> out_created_at b = 2 \<and>
      sorted_wrt (\<lambda>x y. out_created_at y \<le> out_created_at x) [b, a] \<and>
      (\<exists>rs. mset rs = mset (submissions (db two_rows)) \<and> map parse_row rs = map Inr [b, a]))"
proof -
  have h: "submissions (db fresh_world) = [] \<and> (1::nat) < 2"
    by (simp add: fresh_world_def)
  have i1: "insert_run None 1 (js ''A'') (js ''1'') None [] [] (db fresh_world) = Inr one_row"
    by (simp add: insert_run_def next_rowid_def largest_rowid_def MAX_ROWID_def fresh_world_def
        one_row_def)
  have i2: "insert_run None 2 (js ''B'') (js ''2'') None [] [] one_row = Inr (db two_rows)"
    by (simp add: insert_run_def next_rowid_def largest_rowid_def MAX_ROWID_def fresh_world_def
        one_row_def two_rows_def new_row_def)
  have w: "two_rows\<lparr>db := db two_rows\<rparr> = two_rows"
    by simp
  have n: "sqlite_text (js ''A'') = js ''A''" "sqlite_text (js ''B'') = js ''B''"
    by code_simp+
  from listing_is_ordered_by_created_at
    [where w = two_rows and d = "db fresh_world" and tA = 1 and tB = 2 and ?d1.0 = one_row
       and ?d2.0 = "db two_rows" and faultA = None and faultB = None
       and nameA = "js ''A''" and contactA = "js ''1''" and emailA = None and linksA = "[]"
       and urlsA = "[]" and nameB = "js ''B''" and contactB = "js ''2''" and emailB = None
       and linksB = "[]" and urlsB = "[]", THEN conjunct2] h i1 i2 n w
  obtain a b where ab: "admin_submissions two_rows = Inr [b, a]"
    "out_name a = js ''A''" "out_created_at a = 1" "out_name b = js ''B''" "out_created_at b = 2"
    by auto
  from listing_is_ordered_by_created_at [where w = two_rows and l = "[b, a]", THEN conjunct1] ab(1)
  have "sorted_wrt (\<lambda>x y. out_created_at y \<le> out_created_at x) [b, a] \<and>
      (\<exists>rs. mset rs = mset (submissions (db two_rows)) \<and> map parse_row rs = map Inr [b, a])"
    by blast
  with ab h i1 i2 show ?thesis by blast
qed

text \<open>
  C6 as stated fails: \<^verbatim>\<open>CURRENT_TIMESTAMP\<close> has a resolution of one second and the
  query has no second key. Two submissions accepted within the same second are
  listed in the order of their inserts: A, then B.
\<close>

theorem same_second_is_listed_oldest_first:
  "CURRENT_TIMESTAMP (example_env 7) = 7 \<and>
   map_sum id (map out_name)
     (admin_submissions
        (snd (submit (example_env 7) (plain_request (js ''B'') (js ''2''))
           (snd (submit (example_env 7) (plain_request (js ''A'') (js ''1'')) fresh_world))))) =
   Inr [js ''A'', js ''B'']"
  by code_simp

text \<open>
  C7, as amended: when the listing reads a row, a \<^verbatim>\<open>product_links\<close> or
  \<^verbatim>\<open>image_urls\<close> that is \<^verbatim>\<open>NULL\<close> or the empty text yields the empty array for that
  field, and a row with both fields absent is always read. A field whose text is
  no JSON text is not replaced: \<^verbatim>\<open>JSON.parse\<close> throws, and the listing of a table
  that holds such a row fails with the \<^verbatim>\<open>SyntaxError\<close>.
\<close>

theorem absent_field_is_empty_and_malformed_field_throws:
  "(\<forall>p. parse_row r = Inr p \<longrightarrow>
        (\<not> truthy (product_links r) \<longrightarrow> out_product_links p = JArray []) \<and>
        (\<not> truthy (image_urls r) \<longrightarrow> out_image_urls p = JArray [])) \<and>
   (\<not> truthy (product_links r) \<and> \<not> truthy (image_urls r) \<longrightarrow> (\<exists>p. parse_row r = Inr p)) \<and>
   ((JSON_parse (or_else (product_links r) (js ''[]'')) = Inl SyntaxError \<or>
     JSON_parse (or_else (image_urls r) (js ''[]'')) = Inl SyntaxError) \<and>
    r \<in> set (submissions (db w)) \<longrightarrow> admin_submissions w = Inl SyntaxError)"
proof (intro conjI allI impI)
  fix p
  assume "parse_row r = Inr p" and "\<not> truthy (product_links r)"
  then show "out_product_links p = JArray []"
    by (auto simp: parse_row_def or_else_falsy JSON_parse_empty_array split: sum.splits)
next
  fix p
  assume "parse_row r = Inr p" and "\<not> truthy (image_urls r)"
  then show "out_image_urls p = JArray []"
    by (auto simp: parse_row_def or_else_falsy JSON_parse_empty_array split: sum.splits)
next
  assume "\<not> truthy (product_links r) \<and> \<not> truthy (image_urls r)"
  then show "\<exists>p. parse_row r = Inr p"
    by (simp add: parse_row_def or_else_falsy JSON_parse_empty_array)
next
  assume a: "(JSON_parse (or_else (product_links r) (js ''[]'')) = Inl SyntaxError \<or>
     JSON_parse (or_else (image_urls r) (js ''[]'')) = Inl SyntaxError) \<and>
    r \<in> set (submissions (db w))"
  then have "parse_row r = Inl SyntaxError"
    by (auto simp: parse_row_def only_SyntaxError split: sum.splits)
  with a map_parse_row_throws [of r "order_by_created_at_desc (submissions (db w))" SyntaxError]
  show "admin_submissions w = Inl SyntaxError"
    by (simp add: admin_submissions_def set_order_by)
qed

theorem absent_field_is_empty_and_malformed_field_throws_witness:
  "\<not> truthy (product_links absent_row) \<and> \<not> truthy (image_urls absent_row) \<and>
   (\<exists>p. parse_row absent_row = Inr p \<and> out_product_links p = JArray [] \<and> out_image_urls p = JArray []) \<and>
   JSON_parse (or_else (product_links malformed_row) (js ''[]'')) = Inl SyntaxError \<and>
   admin_submissions (fresh_world\<lparr>db := \<lparr>submissions = [absent_row, malformed_row],
      sqlite_sequence = 2\<rparr>\<rparr>) = Inl SyntaxError"
proof -
  have h1: "\<not> truthy (product_links absent_row) \<and> \<not> truthy (image_urls absent_row)"
    by (simp add: absent_row_def truthy_def)
  have h2: "JSON_parse (or_else (product_links malformed_row) (js ''[]'')) = Inl SyntaxError"
    by code_simp
  have h3: "malformed_row \<in> set (submissions (db (fresh_world\<lparr>db := \<lparr>submissions = [absent_row, malformed_row],
      sqlite_sequence = 2\<rparr>\<rparr>)))"
    by simp
  from absent_field_is_empty_and_malformed_field_throws [of absent_row fresh_world] h1
  have "\<exists>p. parse_row absent_row = Inr p \<and> out_product_links p = JArray [] \<and> out_image_urls p = JArray []"
    by blast
  moreover from absent_field_is_empty_and_malformed_field_throws [of malformed_row
     "fresh_world\<lparr>db := \<lparr>submissions = [absent_row, malformed_row], sqlite_sequence = 2\<rparr>\<rparr>"] h2 h3
  have "admin_submissions (fresh_world\<lparr>db := \<lparr>submissions = [absent_row, malformed_row],
      sqlite_sequence = 2\<rparr>\<rparr>) = Inl SyntaxError"
    by blast
  ultimately show ?thesis using h1 h2 by blast
qed

text \<open>
  C7 as stated fails: lines 148 and 149 guard against a missing text only. A
  table with one row whose \<^verbatim>\<open>product_links\<close> is the text \<^verbatim>\<open>{oops\<close> has no listing:
  the parse failure leaves the handler.
\<close>

theorem malformed_field_fails_the_listing:
  "product_links malformed_row = Some (js ''{oops'') \<and>
   JSON_parse (js ''{oops'') = Inl SyntaxError \<and>
   admin_submissions (fresh_world\<lparr>db := \<lparr>submissions = [malformed_row], sqlite_sequence = 2\<rparr>\<rparr>) =
     Inl SyntaxError"
  by code_simp

text \<open>
  C8: for a submission that passed line 85, whose uploads all succeeded and
  whose row was inserted, when a transporter is configured and the relay rejects
  the message to the shop, or accepts it and rejects the acknowledgment to the
  customer, the handler answers with status 500 and the message of the error,
  and the table is the one the insert returned, with the row of the submission:
  the insert is not undone.
\<close>

theorem failed_notification_is_500_and_row_stays:
  assumes "body_name req = Some name" and "name \<noteq> []"
    and "body_contact req = Some contact" and "contact \<noteq> []"
    and "uploads_answer e (uploads w) (case files req of None \<Rightarrow> [] | Some l \<Rightarrow> l) us"
    and "insert_run (storage_fault e) (CURRENT_TIMESTAMP e) name contact (body_email req)
           (linksArray (body_links req)) us (db w) = Inr d"
    and "transporter e = Some relay"
    and "relay (sent w)
           (internal_mail e name contact (body_email req) (linksArray (body_links req)) us) = Some msg
         \<or> (relay (sent w)
              (internal_mail e name contact (body_email req) (linksArray (body_links req)) us) = None \<and>
            body_email req = Some address \<and> address \<noteq> [] \<and>
            relay (sent w @ [internal_mail e name contact (body_email req)
                              (linksArray (body_links req)) us])
              (customer_mail e name address) = Some msg)"
  shows "fst (submit e req w) =
      \<lparr>res_status = 500,
       res_json = JObject [(js ''error'', JString (js ''Server error'')),
                           (js ''details'', JString msg)]\<rparr> \<and>
    db (snd (submit e req w)) = d \<and>
    (\<exists>rowid. next_rowid (db w) = Some rowid \<and>
       submissions (db (snd (submit e req w))) =
         submissions (db w) @
           [new_row rowid (CURRENT_TIMESTAMP e) name contact (body_email req)
              (linksArray (body_links req)) us])"
proof -
  from assms(6) obtain rowid where rowid: "next_rowid (db w) = Some rowid"
    and d: "d = (db w)\<lparr>submissions := submissions (db w) @
        [new_row rowid (CURRENT_TIMESTAMP e) name contact (body_email req)
           (linksArray (body_links req)) us], sqlite_sequence := rowid\<rparr>"
    by (auto simp: insert_run_Inr)
  have stored: "db (snd (submit e req w)) = d"
    using assms(1-4) process_submission_db [OF assms(5,6)] by (simp add: submit_valid)
  have "fst (submit e req w) =
      \<lparr>res_status = 500,
       res_json = JObject [(js ''error'', JString (js ''Server error'')),
                           (js ''details'', JString msg)]\<rparr>"
    using assms(1-4,7,8) process_submission_response [OF assms(5,6)]
    by (auto simp: submit_valid send_emails_def sendMail_def)
  with stored rowid show ?thesis
    by (simp add: d)
qed

theorem failed_notification_is_500_and_row_stays_witness:
  "transporter relay_refuses = Some (\<lambda>before m. Some (js ''refused'')) \<and>
   insert_run (storage_fault relay_refuses) (CURRENT_TIMESTAMP relay_refuses) (js ''Asha'')
     (js ''555'') None [] [] (db fresh_world) =
     Inr \<lparr>submissions = [new_row 1 7 (js ''Asha'') (js ''555'') None [] []], sqlite_sequence = 1\<rparr> \<and>
   fst (submit relay_refuses (plain_request (js ''Asha'') (js ''555'')) fresh_world) =
      \<lparr>res_status = 500,
       res_json = JObject [(js ''error'', JString (js ''Server error'')),
                           (js ''details'', JString (js ''refused''))]\<rparr> \<and>
   map row_name (submissions (db (snd (submit relay_refuses (plain_request (js ''Asha'') (js ''555''))
      fresh_world)))) = [js ''Asha'']"
proof -
  let ?req = "plain_request (js ''Asha'') (js ''555'')"
  let ?d = "\<lparr>submissions = [new_row 1 7 (js ''Asha'') (js ''555'') None [] []], sqlite_sequence = 1\<rparr>"
  have h1: "body_name ?req = Some (js ''Asha'')" and h2: "js ''Asha'' \<noteq> []"
    and h3: "body_contact ?req = Some (js ''555'')" and h4: "js ''555'' \<noteq> []"
    by (simp_all add: plain_request_def js_def)
  have h5: "uploads_answer relay_refuses (uploads fresh_world)
      (case files ?req of None \<Rightarrow> [] | Some l \<Rightarrow> l) []"
    by (simp add: plain_request_def)
  have links: "linksArray None = []"
    by code_simp
  have i: "insert_run (storage_fault relay_refuses) (CURRENT_TIMESTAMP relay_refuses) (js ''Asha'')
     (js ''555'') None [] [] (db fresh_world) = Inr ?d"
    by (simp add: insert_run_def next_rowid_def largest_rowid_def MAX_ROWID_def fresh_world_def
        relay_refuses_def example_env_def)
  then have h6: "insert_run (storage_fault relay_refuses) (CURRENT_TIMESTAMP relay_refuses)
     (js ''Asha'') (js ''555'') (body_email ?req) (linksArray (body_links ?req)) []
     (db fresh_world) = Inr ?d"
    by (simp add: plain_request_def links)
  have h7: "transporter relay_refuses = Some (\<lambda>before m. Some (js ''refused''))"
    by (simp add: relay_refuses_def example_env_def)
  have h8: "(\<lambda>before m. Some (js ''refused'')) (sent fresh_world)
           (internal_mail relay_refuses (js ''Asha'') (js ''555'') (body_email ?req)
              (linksArray (body_links ?req)) []) = Some (js ''refused'')
         \<or> ((\<lambda>before m. Some (js ''refused'')) (sent fresh_world)
              (internal_mail relay_refuses (js ''Asha'') (js ''555'') (body_email ?req)
                 (linksArray (body_links ?req)) []) = None \<and>
            body_email ?req = Some [] \<and> [] \<noteq> [] \<and>
            (\<lambda>before m. Some (js ''refused''))
              (sent fresh_world @ [internal_mail relay_refuses (js ''Asha'') (js ''555'')
                 (body_email ?req) (linksArray (body_links ?req)) []])
              (customer_mail relay_refuses (js ''Asha'') []) = Some (js ''refused''))"
    by simp
  have "sqlite_text (js ''Asha'') = js ''Asha''"
    by code_simp
  then have row: "row_name (new_row k t (js ''Asha'') c m l u) = js ''Asha''" for k t c m l u
    by (simp add: new_row_def)
  from failed_notification_is_500_and_row_stays [OF h1 h2 h3 h4 h5 h6 h7 h8] h7 i row
  show ?thesis by simp
qed

text \<open>
  C9, as amended: for a submission with a non-empty name and contact, no email,
  no links text and no files, no acknowledgment is sent to the customer: the
  only message is the one to the shop, sent when the insert did not throw and a
  transporter is configured. When the insert of line 104 does not throw, the
  table after the call is the one it returns, with one new row that holds the
  text \<^verbatim>\<open>[]\<close> in \<^verbatim>\<open>product_links\<close> and in \<^verbatim>\<open>image_urls\<close>, which the listing reads as
  empty arrays; and then the answer is 200 with \<^verbatim>\<open>{ "success": true }\<close> when no
  transporter is configured or the relay accepts the message to the shop.
\<close>

theorem bare_submission_is_stored_without_customer_mail:
  assumes "body_name req = Some name" and "name \<noteq> []"
    and "body_contact req = Some contact" and "contact \<noteq> []"
    and "\<not> truthy (body_email req)" and "\<not> truthy (body_links req)"
    and "files req = None \<or> files req = Some []"
  shows "sent (snd (submit e req w)) =
      sent w @
        (case insert_run (storage_fault e) (CURRENT_TIMESTAMP e) name contact (body_email req)
                [] [] (db w) of
           Inl err \<Rightarrow> []
         | Inr d \<Rightarrow>
             (case transporter e of
                None \<Rightarrow> []
              | Some relay \<Rightarrow> [internal_mail e name contact (body_email req) [] []])) \<and>
    (\<forall>d. insert_run (storage_fault e) (CURRENT_TIMESTAMP e) name contact (body_email req)
            [] [] (db w) = Inr d \<longrightarrow>
       db (snd (submit e req w)) = d \<and>
       (\<exists>r p. submissions d = submissions (db w) @ [r] \<and>
          product_links r = Some (js ''[]'') \<and> image_urls r = Some (js ''[]'') \<and>
          parse_row r = Inr p \<and> out_product_links p = JArray [] \<and> out_image_urls p = JArray []) \<and>
       ((case transporter e of
           None \<Rightarrow> True
         | Some relay \<Rightarrow> relay (sent w) (internal_mail e name contact (body_email req) [] []) = None)
        \<longrightarrow> fst (submit e req w) =
             \<lparr>res_status = 200, res_json = JObject [(js ''success'', JBool True)]\<rparr>))"
proof -
  from assms(7) have ans: "uploads_answer e (uploads w) (case files req of None \<Rightarrow> [] | Some l \<Rightarrow> l) []"
    by auto
  from assms(7) have nofiles: "(case files req of None \<Rightarrow> [] | Some l \<Rightarrow> l) = []"
    by auto
  from assms(6) have links: "linksArray (body_links req) = []"
    by (rule linksArray_empty)
  have sub: "submit e req w =
      process_submission e name contact (body_email req) (body_links req) (files req) w"
    using assms(1-4) by (rule submit_valid)
  let ?ins = "insert_run (storage_fault e) (CURRENT_TIMESTAMP e) name contact (body_email req)
                [] [] (db w)"
  have mails: "sent (snd (submit e req w)) =
      sent w @
        (case ?ins of
           Inl err \<Rightarrow> []
         | Inr d \<Rightarrow>
             (case transporter e of
                None \<Rightarrow> []
              | Some relay \<Rightarrow> [internal_mail e name contact (body_email req) [] []]))"
  proof (cases ?ins)
    case (Inl err)
    with process_submission_refused [OF ans, of name contact "body_email req" "body_links req" err]
    show ?thesis by (simp add: sub links)
  next
    case (Inr d)
    with assms(5) process_submission_sent [OF ans, of name contact "body_email req" "body_links req" d]
    show ?thesis
      by (auto simp: sub links send_emails_def sendMail_def truthy_def split: option.splits)
  qed
  have stored: "db (snd (submit e req w)) = d \<and>
       (\<exists>r p. submissions d = submissions (db w) @ [r] \<and>
          product_links r = Some (js ''[]'') \<and> image_urls r = Some (js ''[]'') \<and>
          parse_row r = Inr p \<and> out_product_links p = JArray [] \<and> out_image_urls p = JArray []) \<and>
       ((case transporter e of
           None \<Rightarrow> True
         | Some relay \<Rightarrow> relay (sent w) (internal_mail e name contact (body_email req) [] []) = None)
        \<longrightarrow> fst (submit e req w) =
             \<lparr>res_status = 200, res_json = JObject [(js ''success'', JBool True)]\<rparr>)"
    if ins: "?ins = Inr d" for d
  proof (intro conjI)
    from ins have ins': "insert_run (storage_fault e) (CURRENT_TIMESTAMP e) name contact
        (body_email req) (linksArray (body_links req)) [] (db w) = Inr d"
      by (simp add: links)
    from process_submission_db [OF ans ins'] show "db (snd (submit e req w)) = d"
      by (simp add: sub)
    from ins obtain rowid where d: "d = (db w)\<lparr>submissions := submissions (db w) @
        [new_row rowid (CURRENT_TIMESTAMP e) name contact (body_email req) [] []],
        sqlite_sequence := rowid\<rparr>"
      by (auto simp: insert_run_Inr)
    have "product_links (new_row rowid (CURRENT_TIMESTAMP e) name contact (body_email req) [] []) =
        Some (js ''[]'')"
      and "image_urls (new_row rowid (CURRENT_TIMESTAMP e) name contact (body_email req) [] []) =
        Some (js ''[]'')"
      by (simp_all add: new_row_def JSON_stringify_Nil sqlite_text_empty_array)
    then show "\<exists>r p. submissions d = submissions (db w) @ [r] \<and>
          product_links r = Some (js ''[]'') \<and> image_urls r = Some (js ''[]'') \<and>
          parse_row r = Inr p \<and> out_product_links p = JArray [] \<and> out_image_urls p = JArray []"
      using parse_row_new_row [of rowid "CURRENT_TIMESTAMP e" name contact "body_email req" "[]" "[]"]
      by (simp add: d)
    from assms(5) process_submission_response [OF ans ins']
    show "(case transporter e of
           None \<Rightarrow> True
         | Some relay \<Rightarrow> relay (sent w) (internal_mail e name contact (body_email req) [] []) = None)
        \<longrightarrow> fst (submit e req w) =
             \<lparr>res_status = 200, res_json = JObject [(js ''success'', JBool True)]\<rparr>"
      by (auto simp: sub links nofiles send_emails_def sendMail_def truthy_def success_def
          split: option.splits)
  qed
  with mails show ?thesis by blast
qed

theorem bare_submission_is_stored_without_customer_mail_witness:
  "insert_run (storage_fault (example_env 7)) (CURRENT_TIMESTAMP (example_env 7)) (js ''Asha'')
     (js ''555'') None [] [] (db fresh_world) =
     Inr \<lparr>submissions = [new_row 1 7 (js ''Asha'') (js ''555'') None [] []], sqlite_sequence = 1\<rparr> \<and>
   (\<exists>r p. submissions (db (snd (submit (example_env 7) (plain_request (js ''Asha'') (js ''555''))
         fresh_world))) = [r] \<and>
       product_links r = Some (js ''[]'') \<and> image_urls r = Some (js ''[]'') \<and>
       parse_row r = Inr p \<and> out_product_links p = JArray [] \<and> out_image_urls p = JArray []) \<and>
   sent (snd (submit (example_env 7) (plain_request (js ''Asha'') (js ''555'')) fresh_world)) = [] \<and>
   fst (submit (example_env 7) (plain_request (js ''Asha'') (js ''555'')) fresh_world) =
     \<lparr>res_status = 200, res_json = JObject [(js ''success'', JBool True)]\<rparr>"
proof -
  let ?req = "plain_request (js ''Asha'') (js ''555'')"
  let ?d = "\<lparr>submissions = [new_row 1 7 (js ''Asha'') (js ''555'') None [] []], sqlite_sequence = 1\<rparr>"
  have h1: "body_name ?req = Some (js ''Asha'')" and h2: "js ''Asha'' \<noteq> []"
    and h3: "body_contact ?req = Some (js ''555'')" and h4: "js ''555'' \<noteq> []"
    and h5: "\<not> truthy (body_email ?req)" and h6: "\<not> truthy (body_links ?req)"
    and h7: "files ?req = None \<or> files ?req = Some []"
    by (simp_all add: plain_request_def js_def truthy_def)
  have t: "transporter (example_env 7) = None"
    by (simp add: example_env_def)
  have i: "insert_run (storage_fault (example_env 7)) (CURRENT_TIMESTAMP (example_env 7))
     (js ''Asha'') (js ''555'') None [] [] (db fresh_world) = Inr ?d"
    by (simp add: insert_run_def next_rowid_def largest_rowid_def MAX_ROWID_def fresh_world_def
        example_env_def)
  then have i': "insert_run (storage_fault (example_env 7)) (CURRENT_TIMESTAMP (example_env 7))
     (js ''Asha'') (js ''555'') (body_email ?req) [] [] (db fresh_world) = Inr ?d"
    by (simp add: plain_request_def)
  from bare_submission_is_stored_without_customer_mail [OF h1 h2 h3 h4 h5 h6 h7,
      of "example_env 7" fresh_world] i i'
  show ?thesis by (simp add: t fresh_world_def)
qed

text \<open>
  C9 as stated fails: with a transporter whose relay rejects the message to the
  shop, such a submission is answered with status 500; and without a transporter,
  when the table has used the largest rowid, the insert throws, the answer is
  500 and no row is written.
\<close>

theorem bare_submission_can_be_answered_500:
  "truthy (body_name (plain_request (js ''Asha'') (js ''555''))) \<and>
   truthy (body_contact (plain_request (js ''Asha'') (js ''555''))) \<and>
   body_email (plain_request (js ''Asha'') (js ''555'')) = None \<and>
   body_links (plain_request (js ''Asha'') (js ''555'')) = None \<and>
   files (plain_request (js ''Asha'') (js ''555'')) = None \<and>
   res_status (fst (submit relay_refuses (plain_request (js ''Asha'') (js ''555'')) fresh_world)) = 500 \<and>
   transporter (example_env 7) = None \<and>
   res_status (fst (submit (example_env 7) (plain_request (js ''Asha'') (js ''555''))
      last_rowid_used)) = 500 \<and>
   db (snd (submit (example_env 7) (plain_request (js ''Asha'') (js ''555'')) last_rowid_used)) =
     db last_rowid_used"
  by code_simp

text \<open>
  C10: a call of the handler leaves the table as it was or appends one row, and
  the \<^verbatim>\<open>product_links\<close> and \<^verbatim>\<open>image_urls\<close> of that row are texts (not \<^verbatim>\<open>NULL\<close>) that
  \<^verbatim>\<open>JSON.parse\<close> reads as arrays of strings. So when every row of the table is
  such a row before the call, every row is one after it, and the listing of the
  table does not fail.
\<close>

theorem workflow_rows_hold_json_arrays_of_strings:
  "(submissions (db (snd (submit e req w))) = submissions (db w) \<or>
    (\<exists>r. submissions (db (snd (submit e req w))) = submissions (db w) @ [r] \<and> row_ok r)) \<and>
   (list_all row_ok (submissions (db w)) \<longrightarrow>
      list_all row_ok (submissions (db (snd (submit e req w)))) \<and>
      (\<exists>l. admin_submissions (snd (submit e req w)) = Inr l))"
proof -
  have rows: "submissions (db (snd (submit e req w))) = submissions (db w) \<or>
    (\<exists>r. submissions (db (snd (submit e req w))) = submissions (db w) @ [r] \<and> row_ok r)"
    using db_after_submit [of e req w] by (auto simp: insert_run_Inr row_ok_new_row)
  have "list_all row_ok (submissions (db (snd (submit e req w)))) \<and>
      (\<exists>l. admin_submissions (snd (submit e req w)) = Inr l)"
    if inv: "list_all row_ok (submissions (db w))"
  proof
    from rows inv show ok: "list_all row_ok (submissions (db (snd (submit e req w))))"
      by auto
    then have "\<forall>r\<in>set (order_by_created_at_desc (submissions (db (snd (submit e req w))))).
        \<exists>p. parse_row r = Inr p"
      by (auto simp: set_order_by list_all_iff row_ok_parses)
    from map_parse_row_total [OF this]
    show "\<exists>l. admin_submissions (snd (submit e req w)) = Inr l"
      by (simp add: admin_submissions_def)
  qed
  with rows show ?thesis by blast
qed

theorem workflow_rows_hold_json_arrays_of_strings_witness:
  "list_all row_ok (submissions (db fresh_world)) \<and>
   (\<exists>r. submissions (db (snd (submit (example_env 7) three_files fresh_world))) = [r] \<and> row_ok r) \<and>
   (\<exists>l. admin_submissions (snd (submit (example_env 7) three_files fresh_world)) = Inr l)"
proof -
  have h: "list_all row_ok (submissions (db fresh_world))"
    by (simp add: fresh_world_def)
  have n: "submissions (db (snd (submit (example_env 7) three_files fresh_world))) \<noteq>
      submissions (db fresh_world)"
    by code_simp
  from workflow_rows_hold_json_arrays_of_strings [of "example_env 7" three_files fresh_world] h n
  show ?thesis by (auto simp: fresh_world_def)
qed

section \<open>The insert that throws\<close>

text \<open>
  When the uploads of a submission that passed line 85 have succeeded and the
  insert of line 104 throws, because the storage fails or because no rowid is
  left, the handler answers with status 500 and the message of the error, the
  table is unchanged, no mail is sent, and the uploaded assets stay.
\<close>

theorem refused_insert_is_500_without_row:
  assumes "body_name req = Some name" and "name \<noteq> []"
    and "body_contact req = Some contact" and "contact \<noteq> []"
    and "uploads_answer e (uploads w) (case files req of None \<Rightarrow> [] | Some l \<Rightarrow> l) us"
    and "insert_run (storage_fault e) (CURRENT_TIMESTAMP e) name contact (body_email req)
           (linksArray (body_links req)) us (db w) = Inl err"
  shows "fst (submit e req w) =
      \<lparr>res_status = 500,
       res_json = JObject [(js ''error'', JString (js ''Server error'')),
                           (js ''details'', JString (message err))]\<rparr> \<and>
    db (snd (submit e req w)) = db w \<and>
    sent (snd (submit e req w)) = sent w \<and>
    assets (snd (submit e req w)) = assets w @ us \<and>
    (storage_fault e = Some (message err) \<or>
     storage_fault e = None \<and> next_rowid (db w) = None \<and> err = SQLITE_FULL)"
proof -
  from assms(6) have "storage_fault e = Some (message err) \<or>
     storage_fault e = None \<and> next_rowid (db w) = None \<and> err = SQLITE_FULL"
    by (auto simp: insert_run_def split: option.splits)
  with assms(1-4) process_submission_refused [OF assms(5,6)] show ?thesis
    by (simp add: submit_valid)
qed

theorem refused_insert_is_500_without_row_witness:
  "insert_run (storage_fault (example_env 7)) (CURRENT_TIMESTAMP (example_env 7)) (js ''Asha'')
     (js ''555'') None [] [] (db last_rowid_used) = Inl SQLITE_FULL \<and>
   fst (submit (example_env 7) (plain_request (js ''Asha'') (js ''555'')) last_rowid_used) =
      \<lparr>res_status = 500,
       res_json = JObject [(js ''error'', JString (js ''Server error'')),
                           (js ''details'', JString (js ''database or disk is full''))]\<rparr> \<and>
   db (snd (submit (example_env 7) (plain_request (js ''Asha'') (js ''555'')) last_rowid_used)) =
     db last_rowid_used"
proof -
  let ?req = "plain_request (js ''Asha'') (js ''555'')"
  have h1: "body_name ?req = Some (js ''Asha'')" and h2: "js ''Asha'' \<noteq> []"
    and h3: "body_contact ?req = Some (js ''555'')" and h4: "js ''555'' \<noteq> []"
    by (simp_all add: plain_request_def js_def)
  have h5: "uploads_answer (example_env 7) (uploads last_rowid_used)
      (case files ?req of None \<Rightarrow> [] | Some l \<Rightarrow> l) []"
    by (simp add: plain_request_def)
  have links: "linksArray None = []"
    by code_simp
  have i: "insert_run (storage_fault (example_env 7)) (CURRENT_TIMESTAMP (example_env 7))
     (js ''Asha'') (js ''555'') None [] [] (db last_rowid_used) = Inl SQLITE_FULL"
    by (simp add: insert_run_def next_rowid_def largest_rowid_def last_rowid_used_def
        new_row_def example_env_def)
  then have h6: "insert_run (storage_fault (example_env 7)) (CURRENT_TIMESTAMP (example_env 7))
     (js ''Asha'') (js ''555'') (body_email ?req) (linksArray (body_links ?req)) []
     (db last_rowid_used) = Inl SQLITE_FULL"
    by (simp add: plain_request_def links)
  from refused_insert_is_500_without_row [OF h1 h2 h3 h4 h5 h6] i
  show ?thesis by (simp add: SQLITE_FULL_def)
qed

end
